theory Spec2Isabelle
  imports Complex_Main
begin

section \<open>Strings\<close>

text \<open>
  A Python \<^verbatim>\<open>str\<close> is a sequence of Unicode code points and \<^verbatim>\<open>len\<close> counts code
  points, so a string is modelled as the list of its code points. \<open>py_str\<close> embeds
  an ASCII literal.
\<close>

type_synonym str = "nat list"

definition py_str :: "string \<Rightarrow> str" where
  "py_str s = map of_char s"

text \<open>
  \<^verbatim>\<open>str.isspace\<close> on one code point: the code points whose Unicode bidirectional
  class is WS, B or S or whose category is Zs.
\<close>

definition isspace :: "nat \<Rightarrow> bool" where
  "isspace c \<longleftrightarrow>
     (0x09 \<le> c \<and> c \<le> 0x0D) \<or> (0x1C \<le> c \<and> c \<le> 0x20) \<or> c = 0x85 \<or> c = 0xA0 \<or>
     c = 0x1680 \<or> (0x2000 \<le> c \<and> c \<le> 0x200A) \<or> c = 0x2028 \<or> c = 0x2029 \<or>
     c = 0x202F \<or> c = 0x205F \<or> c = 0x3000"

text \<open>\<^verbatim>\<open>s.strip()\<close>: leading and trailing whitespace removed.\<close>

definition strip :: "str \<Rightarrow> str" where
  "strip s = rev (dropWhile isspace (rev (dropWhile isspace s)))"

text \<open>\<^verbatim>\<open>sub in s\<close> on strings: \<open>sub\<close> occurs in \<open>s\<close> as a contiguous block.\<close>

fun starts_with :: "str \<Rightarrow> str \<Rightarrow> bool" where
  "starts_with [] s = True"
| "starts_with (p # ps) [] = False"
| "starts_with (p # ps) (c # cs) = (p = c \<and> starts_with ps cs)"

fun str_contains :: "str \<Rightarrow> str \<Rightarrow> bool" where
  "str_contains sub [] = (sub = [])"
| "str_contains sub (c # cs) = (starts_with sub (c # cs) \<or> str_contains sub cs)"

text \<open>
  \<^verbatim>\<open>s.split(sep)\<close> for a one-character separator: the pieces between the
  occurrences of \<open>sep\<close>, always at least one piece.
\<close>

fun split :: "nat \<Rightarrow> str \<Rightarrow> str list" where
  "split sep [] = [[]]"
| "split sep (c # cs) =
     (if c = sep then [] # split sep cs
      else (case split sep cs of
              p # ps \<Rightarrow> (c # p) # ps
            | [] \<Rightarrow> [[c]]))"

section \<open>Regular expressions\<close>

text \<open>
  The fragment of Python's \<^verbatim>\<open>re\<close> syntax that \<^verbatim>\<open>EMAIL_REGEX\<close> uses. A character
  class is the list of the inclusive code-point ranges written between its brackets.
  Whether a backtracking matcher finds a match of a pattern anchored at both ends
  depends only on the language of the pattern, so matching is decided by derivatives.
\<close>

datatype rexp =
    Nul
  | Eps
  | Cls "(nat \<times> nat) list"
  | Seq rexp rexp
  | Alt rexp rexp
  | Star rexp

fun in_class :: "(nat \<times> nat) list \<Rightarrow> nat \<Rightarrow> bool" where
  "in_class [] c = False"
| "in_class ((lo, hi) # rs) c = ((lo \<le> c \<and> c \<le> hi) \<or> in_class rs c)"

fun nullable :: "rexp \<Rightarrow> bool" where
  "nullable Nul = False"
| "nullable Eps = True"
| "nullable (Cls rs) = False"
| "nullable (Seq r s) = (nullable r \<and> nullable s)"
| "nullable (Alt r s) = (nullable r \<or> nullable s)"
| "nullable (Star r) = True"

fun deriv :: "nat \<Rightarrow> rexp \<Rightarrow> rexp" where
  "deriv c Nul = Nul"
| "deriv c Eps = Nul"
| "deriv c (Cls rs) = (if in_class rs c then Eps else Nul)"
| "deriv c (Seq r s) =
     (if nullable r then Alt (Seq (deriv c r) s) (deriv c s) else Seq (deriv c r) s)"
| "deriv c (Alt r s) = Alt (deriv c r) (deriv c s)"
| "deriv c (Star r) = Seq (deriv c r) (Star r)"

fun matches :: "rexp \<Rightarrow> str \<Rightarrow> bool" where
  "matches r [] = nullable r"
| "matches r (c # cs) = matches (deriv c r) cs"

text \<open>\<^verbatim>\<open>x+\<close> is one \<open>x\<close> and then any number of them; \<^verbatim>\<open>x{2,}\<close> is two and then any number.\<close>

definition plus_rexp :: "rexp \<Rightarrow> rexp" where
  "plus_rexp r = Seq r (Star r)"

definition at_least_two :: "rexp \<Rightarrow> rexp" where
  "at_least_two r = Seq r (Seq r (Star r))"

definition rng :: "char \<Rightarrow> char \<Rightarrow> nat \<times> nat" where
  "rng a b = (of_char a, of_char b)"

definition lit :: "char \<Rightarrow> nat \<times> nat" where
  "lit a = (of_char a, of_char a)"

text \<open>
  \<^verbatim>\<open>pattern.match(s)\<close> for a pattern written \<^verbatim>\<open>^r$\<close> without flags: \<^verbatim>\<open>^\<close> anchors at the
  start, and \<^verbatim>\<open>$\<close> matches at the end of the string and also just before a newline
  that is the last character.
\<close>

definition re_match :: "rexp \<Rightarrow> str \<Rightarrow> bool" where
  "re_match r s \<longleftrightarrow> matches r s \<or> (s \<noteq> [] \<and> last s = 0x0A \<and> matches r (butlast s))"

section \<open>Address validation\<close>

text \<open>
  \<^verbatim>\<open>EMAIL_REGEX = re.compile(r'^[a-zA-Z0-9._%+-]+@[a-zA-Z0-9.-]+\.[a-zA-Z]{2,}$')\<close>
  (src/app.py), the part between the anchors.
\<close>

definition local_class :: "(nat \<times> nat) list" where
  "local_class = [rng CHR ''a'' CHR ''z'', rng CHR ''A'' CHR ''Z'', rng CHR ''0'' CHR ''9'',
                  lit CHR ''.'', lit CHR ''_'', lit CHR ''%'', lit CHR ''+'', lit CHR ''-'']"

definition domain_class :: "(nat \<times> nat) list" where
  "domain_class = [rng CHR ''a'' CHR ''z'', rng CHR ''A'' CHR ''Z'', rng CHR ''0'' CHR ''9'',
                   lit CHR ''.'', lit CHR ''-'']"

definition alpha_class :: "(nat \<times> nat) list" where
  "alpha_class = [rng CHR ''a'' CHR ''z'', rng CHR ''A'' CHR ''Z'']"

definition EMAIL_REGEX :: rexp where
  "EMAIL_REGEX =
     Seq (plus_rexp (Cls local_class))
      (Seq (Cls [lit CHR ''@''])
        (Seq (plus_rexp (Cls domain_class))
          (Seq (Cls [lit CHR ''.''])
            (at_least_two (Cls alpha_class)))))"

text \<open>
  \<^verbatim>\<open>EmailValidator.validate_email\<close> (src/app.py):
  \<^verbatim>\<open>
  if not email or len(email) > 254:
      return False
  return EMAIL_REGEX.match(email.strip()) is not None
  \<close>
\<close>

definition validate_email :: "str \<Rightarrow> bool" where
  "validate_email email =
     (if email = [] \<or> length email > 254 then False
      else re_match EMAIL_REGEX (strip email))"

text \<open>
  \<^verbatim>\<open>validate_email\<close> of src/backend/app.py:
  \<^verbatim>\<open>return '@' in email and '.' in email.split('@')[1]\<close>.
  The index 1 is read only when an \<^verbatim>\<open>@\<close> occurs, so the split has at least two pieces.
\<close>

definition backend_validate_email :: "str \<Rightarrow> bool" where
  "backend_validate_email email \<longleftrightarrow>
     of_char CHR ''@'' \<in> set email \<and>
     of_char CHR ''.'' \<in> set (split (of_char CHR ''@'') email ! 1)"

text \<open>
  The shape of an address as the specification words it: a local part, one or more of
  \<^verbatim>\<open>[A-Za-z0-9._%+-]\<close>, then \<^verbatim>\<open>@\<close>, then a domain, one or more of \<^verbatim>\<open>[A-Za-z0-9.-]\<close>, a
  dot, and a final label of at least two letters.
\<close>

definition is_letter :: "nat \<Rightarrow> bool" where
  "is_letter c \<longleftrightarrow> (of_char CHR ''A'' \<le> c \<and> c \<le> of_char CHR ''Z'') \<or>
                  (of_char CHR ''a'' \<le> c \<and> c \<le> of_char CHR ''z'')"

definition is_digit :: "nat \<Rightarrow> bool" where
  "is_digit c \<longleftrightarrow> of_char CHR ''0'' \<le> c \<and> c \<le> of_char CHR ''9''"

definition local_part_char :: "nat \<Rightarrow> bool" where
  "local_part_char c \<longleftrightarrow> is_letter c \<or> is_digit c \<or> c \<in> of_char ` set ''._%+-''"

definition domain_char :: "nat \<Rightarrow> bool" where
  "domain_char c \<longleftrightarrow> is_letter c \<or> is_digit c \<or> c \<in> of_char ` set ''.-''"

definition address_shape :: "str \<Rightarrow> bool" where
  "address_shape s \<longleftrightarrow>
     (\<exists>l d t. s = l @ [of_char CHR ''@''] @ d @ [of_char CHR ''.''] @ t \<and>
        l \<noteq> [] \<and> list_all local_part_char l \<and>
        d \<noteq> [] \<and> list_all domain_char d \<and>
        2 \<le> length t \<and> list_all is_letter t)"

section \<open>The language of a regular expression\<close>

definition conc :: "str set \<Rightarrow> str set \<Rightarrow> str set" where
  "conc A B = {xs @ ys | xs ys. xs \<in> A \<and> ys \<in> B}"

inductive_set star :: "str set \<Rightarrow> str set" for A :: "str set" where
  star_empty: "[] \<in> star A"
| star_more: "w \<in> A \<Longrightarrow> ws \<in> star A \<Longrightarrow> w @ ws \<in> star A"

fun lang :: "rexp \<Rightarrow> str set" where
  "lang Nul = {}"
| "lang Eps = {[]}"
| "lang (Cls rs) = {[c] | c. in_class rs c}"
| "lang (Seq r s) = conc (lang r) (lang s)"
| "lang (Alt r s) = lang r \<union> lang s"
| "lang (Star r) = star (lang r)"


section \<open>Messages\<close>

type_synonym bytes = "nat list"

text \<open>
  What the code cannot decide by itself is a parameter of the model: the outcome of every
  call on the SMTP connection (\<open>None\<close> when it returns, \<open>Some e\<close> when it raises \<open>e\<close>),
  of the MIME encoding of the attachment, \<^verbatim>\<open>werkzeug\<close>'s \<^verbatim>\<open>secure_filename\<close>, and the
  text \<^verbatim>\<open>str(e)\<close> of the \<^verbatim>\<open>UnicodeEncodeError\<close> that encoding a given body raises.
  \<open>sendmail_result\<close> is asked with the 1-based position of the recipient and stands for
  \<^verbatim>\<open>msg.as_string()\<close> followed by \<^verbatim>\<open>server.sendmail\<close>.

  An exception carries \<^verbatim>\<open>str(e)\<close>. The handlers of the code tell three classes apart:
  \<^verbatim>\<open>smtplib.SMTPAuthenticationError\<close>, any other \<^verbatim>\<open>smtplib.SMTPException\<close>, and any other
  \<^verbatim>\<open>Exception\<close>.
\<close>

datatype exn =
    SMTPAuthenticationError str
  | SMTPException str
  | OtherException str

fun exn_str :: "exn \<Rightarrow> str" where
  "exn_str (SMTPAuthenticationError m) = m"
| "exn_str (SMTPException m) = m"
| "exn_str (OtherException m) = m"

record env =
  connect_result :: "exn option"
  starttls_result :: "exn option"
  login_result :: "exn option"
  sendmail_result :: "nat \<Rightarrow> exn option"
  quit_result :: "exn option"
  attach_result :: "exn option"
  secure_filename :: "str \<Rightarrow> str"
  encode_error :: "str \<Rightarrow> str"

text \<open>The parameters of a campaign, as both generators receive them.\<close>

record campaign =
  sender_email :: str
  sender_name :: str
  password :: str
  subject :: str
  body :: str
  recipients :: "str list"
  cv_data :: bytes
  cv_filename :: str

text \<open>
  A \<^verbatim>\<open>MIMEMultipart\<close> message: the three headers, the \<^verbatim>\<open>MIMEText\<close> part (payload,
  subtype, charset) and the attached file, if any.
\<close>

record mime_part =
  part_maintype :: str
  part_subtype :: str
  part_payload :: bytes
  part_disposition :: str

record message =
  msg_From :: str
  msg_To :: str
  msg_Subject :: str
  msg_text :: str
  msg_text_subtype :: str
  msg_text_charset :: str
  msg_file :: "mime_part option"

definition MAX_EMAIL_BODY_LENGTH :: nat where
  "MAX_EMAIL_BODY_LENGTH = 5000"

definition MAX_SUBJECT_LENGTH :: nat where
  "MAX_SUBJECT_LENGTH = 200"

definition EMAIL_DELAY :: rat where
  "EMAIL_DELAY = 1"

definition SMTP_TIMEOUT :: nat where
  "SMTP_TIMEOUT = 30"

text \<open>The double quote, which an ASCII literal of the theory cannot hold.\<close>

definition dquote :: str where
  "dquote = [0x22]"

text \<open>
  \<^verbatim>\<open>MIMEText(text, 'plain', 'utf-8')\<close> encodes the text with
  \<^verbatim>\<open>text.encode('utf-8', 'surrogateescape')\<close>. A surrogate code point makes it raise
  \<^verbatim>\<open>UnicodeEncodeError\<close>, unless it is one of U+DC80 to U+DCFF, which the error handler
  turns back into a byte. In both builders the call stands outside the \<^verbatim>\<open>try\<close>, so the
  exception leaves the builder as it is.
\<close>

definition utf8_encodable :: "str \<Rightarrow> bool" where
  "utf8_encodable s =
     list_all (\<lambda>c. \<not> ((0xD800 \<le> c \<and> c \<le> 0xDC7F) \<or> (0xDD00 \<le> c \<and> c \<le> 0xDFFF))) s"

text \<open>
  \<^verbatim>\<open>EmailSender.create_message\<close> (src/app.py), called with the campaign's fields and one
  recipient. The display name is used when it is non-empty and not blank; subject and
  body are sliced; the sliced body is encoded; the file is attached when both its data
  and its name are non-empty, and an exception of the encoding is raised again.
\<close>

definition create_message :: "env \<Rightarrow> campaign \<Rightarrow> str \<Rightarrow> exn + message" where
  "create_message ev c recipient_email =
     (let msg = \<lparr>
            msg_From =
              (if sender_name c \<noteq> [] \<and> strip (sender_name c) \<noteq> []
               then dquote @ strip (sender_name c) @ dquote @ py_str '' <'' @ sender_email c @ py_str ''>''
               else sender_email c),
            msg_To = recipient_email,
            msg_Subject = take MAX_SUBJECT_LENGTH (subject c),
            msg_text = take MAX_EMAIL_BODY_LENGTH (body c),
            msg_text_subtype = py_str ''plain'',
            msg_text_charset = py_str ''utf-8'',
            msg_file = None \<rparr>
      in if \<not> utf8_encodable (take MAX_EMAIL_BODY_LENGTH (body c)) then
           Inl (OtherException (encode_error ev (take MAX_EMAIL_BODY_LENGTH (body c))))
         else if cv_data c \<noteq> [] \<and> cv_filename c \<noteq> [] then
           (case attach_result ev of
              Some e \<Rightarrow> Inl e
            | None \<Rightarrow> Inr (msg \<lparr> msg_file := Some \<lparr>
                  part_maintype = py_str ''application'',
                  part_subtype = py_str ''pdf'',
                  part_payload = cv_data c,
                  part_disposition =
                    py_str ''attachment; filename='' @ dquote @ secure_filename ev (cv_filename c) @ dquote \<rparr> \<rparr>))
         else Inr msg)"

text \<open>
  \<^verbatim>\<open>create_message_with_attachment\<close> (src/backend/app.py): the display name is used when
  non-empty, subject and body are assigned as they are, the body is encoded, the file is
  always attached under the name given, and an exception of the encoding of the file is
  wrapped in an \<^verbatim>\<open>Exception\<close>.
\<close>

definition create_message_with_attachment :: "env \<Rightarrow> campaign \<Rightarrow> str \<Rightarrow> exn + message" where
  "create_message_with_attachment ev c recipient_email =
     (let msg = \<lparr>
            msg_From =
              (if sender_name c \<noteq> []
               then dquote @ sender_name c @ dquote @ py_str '' <'' @ sender_email c @ py_str ''>''
               else sender_email c),
            msg_To = recipient_email,
            msg_Subject = subject c,
            msg_text = body c,
            msg_text_subtype = py_str ''plain'',
            msg_text_charset = py_str ''utf-8'',
            msg_file = None \<rparr>
      in if \<not> utf8_encodable (body c) then
           Inl (OtherException (encode_error ev (body c)))
         else
           (case attach_result ev of
              Some e \<Rightarrow> Inl (OtherException (py_str ''Error attaching file: '' @ exn_str e))
            | None \<Rightarrow> Inr (msg \<lparr> msg_file := Some \<lparr>
                  part_maintype = py_str ''application'',
                  part_subtype = py_str ''octet-stream'',
                  part_payload = cv_data c,
                  part_disposition =
                    py_str ''attachment; filename='' @ dquote @ cv_filename c @ dquote \<rparr> \<rparr>)))"


section \<open>Events and actions\<close>

text \<open>
  Every \<^verbatim>\<open>yield\<close> of a generator is one JSON object and a newline. An event is that
  object before serialisation: \<^verbatim>\<open>{'type': 'log', 'message', 'level'}\<close>,
  \<^verbatim>\<open>{'type': 'progress', 'progress', 'total', 'sent', 'failed', 'pending'}\<close> or
  \<^verbatim>\<open>{'type': 'complete', 'sent', 'failed'}\<close>.
\<close>

datatype level = Info | Success | Error

datatype event =
    Log str level
  | Progress int nat nat nat int
  | Complete nat nat

text \<open>
  A run is the list of what the generator does, in order, when its consumer reads it
  to the end: the events it yields, the calls on the SMTP connection (an attempted call
  is listed whether it returns or raises) and the calls of \<^verbatim>\<open>time.sleep\<close>, in seconds.
  \<open>Connect\<close> is \<^verbatim>\<open>smtplib.SMTP(host, port, timeout)\<close>, with \<open>None\<close> when no timeout is
  passed. Calls of the logger are not part of a run.
\<close>

datatype action =
    Yield event
  | Sleep rat
  | Connect str nat "nat option"
  | StartTLS
  | Login str str
  | SendMail str str message
  | Quit

fun events :: "action list \<Rightarrow> event list" where
  "events [] = []"
| "events (Yield e # as) = e # events as"
| "events (a # as) = events as"

fun is_progress :: "event \<Rightarrow> bool" where
  "is_progress (Progress p t s f q) = True"
| "is_progress e = False"

fun is_complete :: "event \<Rightarrow> bool" where
  "is_complete (Complete s f) = True"
| "is_complete e = False"

fun is_error_log :: "event \<Rightarrow> bool" where
  "is_error_log (Log m Error) = True"
| "is_error_log e = False"

fun is_sleep :: "action \<Rightarrow> bool" where
  "is_sleep (Sleep d) = True"
| "is_sleep a = False"

text \<open>\<^verbatim>\<open>str(n)\<close> of a natural number, as an f-string renders it.\<close>

fun str_nat :: "nat \<Rightarrow> str" where
  "str_nat n = (if n < 10 then [of_char CHR ''0'' + n]
                else str_nat (n div 10) @ [of_char CHR ''0'' + n mod 10])"

declare str_nat.simps [simp del]

section \<open>The progress figure\<close>

text \<open>
  \<^verbatim>\<open>int((i / total) * 100)\<close> is computed in binary64 floating point: the quotient of the
  two integers is rounded to 53 significant bits (nearest, ties to even), the product
  with 100 is rounded again, and \<^verbatim>\<open>int\<close> truncates. A float is held as a mantissa and a
  binary exponent, \<open>(m, e)\<close> for \<open>m * 2 ^ e\<close>. The exponent is not bounded in the model:
  the quotients of a run lie between \<open>1 / total\<close> and 1, far from underflow.
\<close>

fun bit_length :: "nat \<Rightarrow> nat" where
  "bit_length n = (if n = 0 then 0 else Suc (bit_length (n div 2)))"

declare bit_length.simps [simp del]

definition round_div :: "nat \<Rightarrow> nat \<Rightarrow> nat" where
  "round_div n d =
     (let q = n div d; r = n mod d
      in if 2 * r < d \<or> (2 * r = d \<and> even q) then q else q + 1)"

type_synonym float = "nat \<times> int"

definition true_divide :: "nat \<Rightarrow> nat \<Rightarrow> float" where
  "true_divide a b =
     (if a = 0 then (0, 0)
      else
        let d = int (bit_length a) - int (bit_length b);
            e = (if (if 0 \<le> d then b * 2 ^ nat d \<le> a else b \<le> a * 2 ^ nat (- d))
                 then d else d - 1);
            k = 52 - e
        in (if 0 \<le> k then round_div (a * 2 ^ nat k) b
            else round_div a (b * 2 ^ nat (- k)), - k))"

definition float_times :: "float \<Rightarrow> nat \<Rightarrow> float" where
  "float_times x n =
     (let p = fst x * n; s = bit_length p - 53
      in if bit_length p \<le> 53 then (p, snd x)
         else (round_div p (2 ^ s), snd x + int s))"

definition float_to_int :: "float \<Rightarrow> int" where
  "float_to_int x =
     (if 0 \<le> snd x then int (fst x * 2 ^ nat (snd x))
      else int (fst x div 2 ^ nat (- snd x)))"

definition progress_percent :: "nat \<Rightarrow> nat \<Rightarrow> int" where
  "progress_percent i tot = float_to_int (float_times (true_divide i tot) 100)"


section \<open>The dispatch generator of src/app.py\<close>

text \<open>An \<^verbatim>\<open>EmailSender\<close> object; \<^verbatim>\<open>email_sender = EmailSender()\<close> takes the defaults.\<close>

record EmailSender =
  smtp_server :: str
  smtp_port :: nat

definition email_sender :: EmailSender where
  "email_sender = \<lparr> smtp_server = py_str ''smtp.gmail.com'', smtp_port = 587 \<rparr>"

definition credentials_signature :: str where
  "credentials_signature = py_str ''Username and Password not accepted''"

definition completed_message :: "nat \<Rightarrow> nat \<Rightarrow> str" where
  "completed_message sent failed =
     py_str ''Campaign completed! Sent: '' @ str_nat sent @ py_str '', Failed: '' @ str_nat failed"

definition progress_event :: "nat \<Rightarrow> nat \<Rightarrow> nat \<Rightarrow> nat \<Rightarrow> event" where
  "progress_event i tot sent failed =
     Progress (progress_percent i tot) tot sent failed (int tot - int sent - int failed)"

text \<open>
  One pass through the body of \<^verbatim>\<open>for i, recipient in enumerate(recipients, 1)\<close> in
  \<^verbatim>\<open>send_emails_batch\<close>, from the counters \<open>(sent, failed)\<close> to the actions of the pass
  and the counters after it. An address that fails validation is counted and logged,
  and \<^verbatim>\<open>continue\<close> leaves the pass there. Otherwise the message is built and sent, an
  exception of either is caught, counted and logged, and the progress event and the
  delay follow.
\<close>

definition batch_iteration ::
  "env \<Rightarrow> campaign \<Rightarrow> nat \<Rightarrow> nat \<Rightarrow> str \<Rightarrow> nat \<times> nat \<Rightarrow> action list \<times> nat \<times> nat" where
  "batch_iteration ev c tot i recipient st =
     (let sent = fst st; failed = snd st in
      if \<not> validate_email recipient then
        ([Yield (Log (py_str ''Invalid email: '' @ recipient) Error)], sent, failed + 1)
      else
        let failure = (\<lambda>e. Yield (Log ([0x2717] @ py_str '' Failed to send to '' @ recipient
                                        @ py_str '': '' @ exn_str e) Error));
            (outcome, sent', failed') =
              (case create_message ev c recipient of
                 Inl e \<Rightarrow> ([failure e], sent, failed + 1)
               | Inr msg \<Rightarrow>
                   (case sendmail_result ev i of
                      Some e \<Rightarrow> ([SendMail (sender_email c) recipient msg, failure e], sent, failed + 1)
                    | None \<Rightarrow>
                        ([SendMail (sender_email c) recipient msg,
                          Yield (Log ([0x2713] @ py_str '' Sent to: '' @ recipient) Success)],
                         sent + 1, failed)))
        in (outcome @ [Yield (progress_event i tot sent' failed')]
              @ (if i < tot then [Sleep EMAIL_DELAY] else []),
            sent', failed'))"

fun batch_loop ::
  "env \<Rightarrow> campaign \<Rightarrow> nat \<Rightarrow> nat \<Rightarrow> str list \<Rightarrow> nat \<times> nat \<Rightarrow> action list \<times> nat \<times> nat" where
  "batch_loop ev c tot i [] st = ([], st)"
| "batch_loop ev c tot i (recipient # rest) st =
     (let (first, st') = batch_iteration ev c tot i recipient st;
          (others, st'') = batch_loop ev c tot (Suc i) rest st'
      in (first @ others, st''))"

text \<open>
  The \<^verbatim>\<open>finally\<close> block: \<^verbatim>\<open>server.quit()\<close> inside \<^verbatim>\<open>try ... except: pass\<close>. It runs when
  \<^verbatim>\<open>server\<close> was assigned, that is when \<^verbatim>\<open>smtplib.SMTP(...)\<close> returned.
\<close>

definition finally_quit :: "env \<Rightarrow> action list" where
  "finally_quit ev = (case quit_result ev of None \<Rightarrow> [Quit] | Some e \<Rightarrow> [Quit])"

text \<open>
  \<^verbatim>\<open>EmailSender.send_emails_batch\<close>. An \<^verbatim>\<open>SMTPAuthenticationError\<close> of the login is
  reported in one log line and the generator returns; any other exception outside the
  loop is reported by the outer handler as \<^verbatim>\<open>Error: ...\<close>.
\<close>

definition send_emails_batch :: "EmailSender \<Rightarrow> env \<Rightarrow> campaign \<Rightarrow> action list" where
  "send_emails_batch self ev c =
     (let tot = length (recipients c);
          unexpected = (\<lambda>e. [Yield (Log (py_str ''Error: '' @ exn_str e) Error)])
      in
      [Yield (Log (py_str ''Starting email campaign...'') Info),
       Yield (Log (py_str ''Connecting to '' @ smtp_server self @ py_str ''...'') Info),
       Connect (smtp_server self) (smtp_port self) (Some SMTP_TIMEOUT)] @
      (case connect_result ev of
         Some e \<Rightarrow> unexpected e
       | None \<Rightarrow>
          (StartTLS #
           (case starttls_result ev of
              Some e \<Rightarrow> unexpected e
            | None \<Rightarrow>
               [Yield (Log (py_str ''Authenticating...'') Info),
                Login (sender_email c) (password c)] @
               (case login_result ev of
                  Some (SMTPAuthenticationError error_msg) \<Rightarrow>
                    [Yield (Log
                       (if str_contains credentials_signature error_msg
                        then py_str ''Authentication failed! For Gmail, use an App Password, not your regular password. ''
                             @ py_str ''Generate one at: https://myaccount.google.com/apppasswords''
                        else py_str ''Authentication failed: '' @ error_msg) Error)]
                | Some e \<Rightarrow> unexpected e
                | None \<Rightarrow>
                    (let (sending, sent, failed) = batch_loop ev c tot 1 (recipients c) (0, 0)
                     in [Yield (Log (py_str ''Authentication successful'') Success),
                         Yield (Log (py_str ''Sending to '' @ str_nat tot @ py_str '' recipients...'') Info)]
                        @ sending @
                        [Yield (Log (completed_message sent failed) Success),
                         Yield (Complete sent failed)]))))
          @ finally_quit ev))"

section \<open>The dispatch generator of src/backend/app.py\<close>

text \<open>
  One pass through the loop body of \<^verbatim>\<open>send_emails_generator\<close>: validation, building and
  sending sit in an \<^verbatim>\<open>if ... else\<close> inside the \<^verbatim>\<open>try\<close>, and the progress event and a
  delay of half a second follow in every case.
\<close>

definition generator_iteration ::
  "env \<Rightarrow> campaign \<Rightarrow> nat \<Rightarrow> nat \<Rightarrow> str \<Rightarrow> nat \<times> nat \<Rightarrow> action list \<times> nat \<times> nat" where
  "generator_iteration ev c tot i recipient st =
     (let sent = fst st; failed = snd st;
          failure = (\<lambda>e. Yield (Log (py_str ''Failed to send to '' @ recipient
                                      @ py_str '': '' @ exn_str e) Error));
          (outcome, sent', failed') =
            (if \<not> backend_validate_email recipient then
               ([Yield (Log (py_str ''Invalid email: '' @ recipient) Error)], sent, failed + 1)
             else
               (case create_message_with_attachment ev c recipient of
                  Inl e \<Rightarrow> ([failure e], sent, failed + 1)
                | Inr msg \<Rightarrow>
                    (case sendmail_result ev i of
                       Some e \<Rightarrow> ([SendMail (sender_email c) recipient msg, failure e], sent, failed + 1)
                     | None \<Rightarrow>
                         ([SendMail (sender_email c) recipient msg,
                           Yield (Log (py_str ''Email sent to: '' @ recipient) Success)],
                          sent + 1, failed))))
      in (outcome @ [Yield (progress_event i tot sent' failed'), Sleep (1 / 2)], sent', failed'))"

fun generator_loop ::
  "env \<Rightarrow> campaign \<Rightarrow> nat \<Rightarrow> nat \<Rightarrow> str list \<Rightarrow> nat \<times> nat \<Rightarrow> action list \<times> nat \<times> nat" where
  "generator_loop ev c tot i [] st = ([], st)"
| "generator_loop ev c tot i (recipient # rest) st =
     (let (first, st') = generator_iteration ev c tot i recipient st;
          (others, st'') = generator_loop ev c tot (Suc i) rest st'
      in (first @ others, st''))"

text \<open>The three \<^verbatim>\<open>except\<close> clauses that close \<^verbatim>\<open>send_emails_generator\<close>.\<close>

fun generator_handlers :: "exn \<Rightarrow> action list" where
  "generator_handlers (SMTPAuthenticationError error_msg) =
     (if str_contains credentials_signature error_msg then
        [Yield (Log (py_str ''Authentication failed! For Gmail, you need to use an App Password, not your regular password.'') Error),
         Yield (Log (py_str ''Please go to https://myaccount.google.com/apppasswords to generate one.'') Error)]
      else
        [Yield (Log (py_str ''Authentication failed: '' @ error_msg) Error)])"
| "generator_handlers (SMTPException m) =
     [Yield (Log (py_str ''SMTP error: '' @ m) Error)]"
| "generator_handlers (OtherException m) =
     [Yield (Log (py_str ''Unexpected error: '' @ m) Error)]"

text \<open>
  \<^verbatim>\<open>send_emails_generator\<close>. An exception of the login is logged and raised again, so
  a handler reports it a second time; \<^verbatim>\<open>server.quit()\<close> is called after the loop and
  before the completion log, inside the same \<^verbatim>\<open>try\<close>.
\<close>

definition send_emails_generator :: "env \<Rightarrow> campaign \<Rightarrow> action list" where
  "send_emails_generator ev c =
     (let tot = length (recipients c) in
      [Yield (Log (py_str ''Starting email campaign...'') Info),
       Yield (Log (py_str ''Connecting to SMTP server (smtp.gmail.com)...'') Info),
       Connect (py_str ''smtp.gmail.com'') 587 None] @
      (case connect_result ev of
         Some e \<Rightarrow> generator_handlers e
       | None \<Rightarrow>
          StartTLS #
          (case starttls_result ev of
             Some e \<Rightarrow> generator_handlers e
           | None \<Rightarrow>
              [Yield (Log (py_str ''Authenticating...'') Info),
               Login (sender_email c) (password c)] @
              (case login_result ev of
                 Some auth_error \<Rightarrow>
                   Yield (Log (py_str ''Authentication failed: '' @ exn_str auth_error) Error)
                   # generator_handlers auth_error
               | None \<Rightarrow>
                   (let (sending, sent, failed) = generator_loop ev c tot 1 (recipients c) (0, 0)
                    in [Yield (Log (py_str ''Successfully authenticated'') Success),
                        Yield (Log (py_str ''Starting to send emails to '' @ str_nat tot @ py_str '' recipients'') Info)]
                       @ sending @ [Quit] @
                       (case quit_result ev of
                          Some e \<Rightarrow> generator_handlers e
                        | None \<Rightarrow>
                            [Yield (Log (completed_message sent failed) Success),
                             Yield (Complete sent failed)]))))))"

section \<open>Testing credentials\<close>

text \<open>
  A JSON response: the \<^verbatim>\<open>status\<close> and \<^verbatim>\<open>message\<close> fields and the HTTP status code. The
  body of the request is the list of the items of a JSON object with string values, or
  \<open>None\<close> when \<^verbatim>\<open>get_json()\<close> gives \<^verbatim>\<open>None\<close>.
\<close>

datatype response = Response str str nat

definition dict_get :: "(str \<times> str) list \<Rightarrow> str \<Rightarrow> str \<Rightarrow> str" where
  "dict_get d k dflt = (case map_of d k of None \<Rightarrow> dflt | Some v \<Rightarrow> v)"

text \<open>
  A call on the connection inside a \<^verbatim>\<open>try\<close>: when it raises, the statements after it
  are skipped and the exception reaches the handlers.
\<close>

definition call :: "action \<Rightarrow> exn option \<Rightarrow> action list \<times> exn option \<Rightarrow> action list \<times> exn option" where
  "call a r rest = (case r of Some e \<Rightarrow> ([a], Some e) | None \<Rightarrow> (a # fst rest, snd rest))"

text \<open>
  What \<^verbatim>\<open>test_email\<close> returns: the \<^verbatim>\<open>return\<close> that ends the \<^verbatim>\<open>try\<close> when nothing was
  raised, and the two \<^verbatim>\<open>except\<close> clauses, first in src/app.py and then in
  src/backend/app.py, whose last clause answers with \<^verbatim>\<open>str(e)\<close>.
\<close>

fun test_email_response :: "exn option \<Rightarrow> response" where
  "test_email_response None =
     Response (py_str ''success'') (py_str ''Authentication successful'') 200"
| "test_email_response (Some (SMTPAuthenticationError m)) =
     Response (py_str ''error'')
       (py_str ''Authentication failed. For Gmail, use an App Password from https://myaccount.google.com/apppasswords'')
       401"
| "test_email_response (Some e) =
     Response (py_str ''error'') (py_str ''Connection failed'') 500"

fun backend_test_email_response :: "exn option \<Rightarrow> response" where
  "backend_test_email_response None =
     Response (py_str ''success'') (py_str ''Authentication successful'') 200"
| "backend_test_email_response (Some (SMTPAuthenticationError m)) =
     Response (py_str ''error'')
       (py_str ''Authentication failed. For Gmail, use an App Password from https://myaccount.google.com/apppasswords'')
       401"
| "backend_test_email_response (Some e) =
     Response (py_str ''error'') (exn_str e) 500"

text \<open>
  \<^verbatim>\<open>test_email\<close> (src/app.py): the request is checked, then
  \<^verbatim>\<open>SMTP('smtp.gmail.com', 587, timeout=10)\<close>, \<^verbatim>\<open>starttls\<close>, \<^verbatim>\<open>login\<close>, \<^verbatim>\<open>quit\<close>.
\<close>

definition test_email :: "env \<Rightarrow> (str \<times> str) list option \<Rightarrow> action list \<times> response" where
  "test_email ev data =
     (if data = None \<or> data = Some [] then
        ([], Response (py_str ''error'') (py_str ''No data provided'') 400)
      else
        let sender = strip (dict_get (the data) (py_str ''sender_email'') []);
            secret = dict_get (the data) (py_str ''password'') []
        in if \<not> validate_email sender then
             ([], Response (py_str ''error'') (py_str ''Invalid email format'') 400)
           else
             let (done, raised) =
                   call (Connect (py_str ''smtp.gmail.com'') 587 (Some 10)) (connect_result ev)
                    (call StartTLS (starttls_result ev)
                      (call (Login sender secret) (login_result ev)
                        (call Quit (quit_result ev) ([], None))))
             in (done, test_email_response raised))"

text \<open>
  \<^verbatim>\<open>test_email\<close> (src/backend/app.py): the two fields are read from the JSON object
  without a check and the connection is opened without a timeout.
\<close>

definition backend_test_email :: "env \<Rightarrow> str \<Rightarrow> str \<Rightarrow> action list \<times> response" where
  "backend_test_email ev sender secret =
     (let (done, raised) =
            call (Connect (py_str ''smtp.gmail.com'') 587 None) (connect_result ev)
             (call StartTLS (starttls_result ev)
               (call (Login sender secret) (login_result ev)
                 (call Quit (quit_result ev) ([], None))))
      in (done, backend_test_email_response raised))"


section \<open>Inputs of the examples\<close>

text \<open>
  A relay that accepts every call, and a campaign with a given list of recipients; the
  attachment is the four bytes \<^verbatim>\<open>%PDF\<close>. For an encoding error the relay gives the
  last clause of Python's message.
\<close>

definition relay_ok :: env where
  "relay_ok = \<lparr> connect_result = None, starttls_result = None, login_result = None,
                sendmail_result = (\<lambda>i. None), quit_result = None, attach_result = None,
                secure_filename = (\<lambda>name. name),
                encode_error = (\<lambda>text. py_str ''surrogates not allowed'') \<rparr>"

definition campaign_to :: "str list \<Rightarrow> campaign" where
  "campaign_to rs = \<lparr> sender_email = py_str ''me@example.com'', sender_name = py_str ''Me'',
                      password = py_str ''secret'', subject = py_str ''Application'',
                      body = py_str ''Hello'', recipients = rs,
                      cv_data = [0x25, 0x50, 0x44, 0x46], cv_filename = py_str ''cv.pdf'' \<rparr>"

fun status_code :: "response \<Rightarrow> nat" where
  "status_code (Response status message code) = code"

fun is_sendmail :: "action \<Rightarrow> bool" where
  "is_sendmail (SendMail sender recipient msg) = True"
| "is_sendmail a = False"

definition probe_request :: "string \<Rightarrow> (str \<times> str) list option" where
  "probe_request address =
     Some [(py_str ''sender_email'', py_str address), (py_str ''password'', py_str ''secret'')]"

text \<open>
  The message of the \<^verbatim>\<open>SMTPAuthenticationError\<close> that Gmail raises for a wrong password,
  and a relay that rejects the login with it.
\<close>

definition gmail_rejection :: str where
  "gmail_rejection =
     py_str ''(535, b'' @ [0x27] @ py_str ''5.7.8 Username and Password not accepted.'' @ [0x27] @ py_str '')''"

definition relay_rejecting :: env where
  "relay_rejecting = relay_ok \<lparr> login_result := Some (SMTPAuthenticationError gmail_rejection) \<rparr>"

section \<open>Notions used to state the properties of a run\<close>

text \<open>
  Every element of a list paired with what follows it: \<open>(x, post)\<close> is listed exactly
  when the list is \<open>pre @ x # post\<close> for some \<open>pre\<close>.
\<close>

fun followed :: "'a list \<Rightarrow> ('a \<times> 'a list) list" where
  "followed [] = []"
| "followed (x # xs) = (x, xs) # followed xs"

text \<open>
  The actions that a pass through either loop can produce: events other than
  \<open>Complete\<close>, delays of one second or half a second, and submissions.
\<close>

fun in_loop :: "action \<Rightarrow> bool" where
  "in_loop (Yield (Complete s f)) = False"
| "in_loop (Yield e) = True"
| "in_loop (Sleep d) = (d = 1 \<or> d = 1 / 2)"
| "in_loop (SendMail a b m) = True"
| "in_loop a = False"

text \<open>The first three actions of a run, up to the attempt to connect, in either file.\<close>

definition batch_head :: "EmailSender \<Rightarrow> action list" where
  "batch_head self =
     [Yield (Log (py_str ''Starting email campaign...'') Info),
      Yield (Log (py_str ''Connecting to '' @ smtp_server self @ py_str ''...'') Info),
      Connect (smtp_server self) (smtp_port self) (Some 30)]"

definition generator_head :: "action list" where
  "generator_head =
     [Yield (Log (py_str ''Starting email campaign...'') Info),
      Yield (Log (py_str ''Connecting to SMTP server (smtp.gmail.com)...'') Info),
      Connect (py_str ''smtp.gmail.com'') 587 None]"



section \<open>Matching decides the language\<close>

lemma conc_empty_left: "conc {[]} B = B" by (auto simp: conc_def)

lemma nullable_lang: "nullable r \<longleftrightarrow> [] \<in> lang r"
  by (induction r) (auto simp: conc_def intro: star.star_empty)

lemma star_cons_iff:
  "c # w \<in> star A \<longleftrightarrow> (\<exists>u v. w = u @ v \<and> c # u \<in> A \<and> v \<in> star A)"
proof
  assume "c # w \<in> star A"
  then show "\<exists>u v. w = u @ v \<and> c # u \<in> A \<and> v \<in> star A"
  proof (induction "c # w" arbitrary: w rule: star.induct)
    case (star_more x ws)
    show ?case
    proof (cases x)
      case Nil
      with star_more show ?thesis by simp
    next
      case (Cons a u)
      with star_more show ?thesis by auto
    qed
  qed
next
  assume "\<exists>u v. w = u @ v \<and> c # u \<in> A \<and> v \<in> star A"
  then obtain u v where "w = u @ v" "c # u \<in> A" "v \<in> star A" by blast
  then show "c # w \<in> star A" using star.star_more[of "c # u" A v] by simp
qed

lemma conc_cons_iff:
  "c # w \<in> conc A B \<longleftrightarrow>
     (\<exists>u v. w = u @ v \<and> c # u \<in> A \<and> v \<in> B) \<or> ([] \<in> A \<and> c # w \<in> B)"
  by (auto simp: conc_def Cons_eq_append_conv) 

lemma lang_deriv: "w \<in> lang (deriv c r) \<longleftrightarrow> c # w \<in> lang r"
proof (induction r arbitrary: w)
  case (Seq r s)
  then show ?case
    by (auto simp: conc_cons_iff nullable_lang) (auto simp: conc_def)
next
  case (Star r)
  then show ?case
    by (auto simp: star_cons_iff) (auto simp: conc_def)
qed auto

lemma matches_lang: "matches r s \<longleftrightarrow> s \<in> lang r"
  by (induction s arbitrary: r) (auto simp: nullable_lang lang_deriv)

section \<open>The pattern of an address\<close>

lemma star_cls: "w \<in> star {[c] | c. P c} \<longleftrightarrow> list_all P w"
proof
  assume "w \<in> star {[c] | c. P c}"
  then show "list_all P w" by (induction rule: star.induct) auto
next
  assume "list_all P w"
  then show "w \<in> star {[c] | c. P c}"
  proof (induction w)
    case Nil
    show ?case by (rule star.star_empty)
  next
    case (Cons a w)
    then have "[a] \<in> {[c] | c. P c}" "w \<in> star {[c] | c. P c}" by auto
    then have "[a] @ w \<in> star {[c] | c. P c}" by (rule star.star_more)
    then show ?case by simp
  qed
qed

lemma conc_cls: "w \<in> conc {[c] | c. P c} B \<longleftrightarrow> (\<exists>c v. w = c # v \<and> P c \<and> v \<in> B)"
proof
  assume "w \<in> conc {[c] | c. P c} B"
  then show "\<exists>c v. w = c # v \<and> P c \<and> v \<in> B" by (auto simp: conc_def)
next
  assume "\<exists>c v. w = c # v \<and> P c \<and> v \<in> B"
  then obtain c v where "w = [c] @ v" "P c" "v \<in> B" by auto
  then show "w \<in> conc {[c] | c. P c} B" unfolding conc_def by blast
qed

lemma lang_plus_cls:
  "w \<in> lang (plus_rexp (Cls X)) \<longleftrightarrow> w \<noteq> [] \<and> list_all (in_class X) w"
  by (cases w) (auto simp: plus_rexp_def conc_cls star_cls)

lemma lang_two_cls:
  "w \<in> lang (at_least_two (Cls X)) \<longleftrightarrow> 2 \<le> length w \<and> list_all (in_class X) w"
proof (cases w)
  case Nil then show ?thesis by (auto simp: at_least_two_def conc_cls)
next
  case (Cons a u)
  then show ?thesis by (cases u) (auto simp: at_least_two_def conc_cls star_cls)
qed

lemma in_local_class: "in_class local_class c = local_part_char c"
  by (auto simp: local_class_def local_part_char_def is_letter_def is_digit_def rng_def lit_def)

lemma in_domain_class: "in_class domain_class c = domain_char c"
  by (auto simp: domain_class_def domain_char_def is_letter_def is_digit_def rng_def lit_def)

lemma in_alpha_class: "in_class alpha_class c = is_letter c"
  by (auto simp: alpha_class_def is_letter_def rng_def lit_def)

lemma lang_lit: "w \<in> lang (Cls [lit a]) \<longleftrightarrow> w = [of_char a]"
  by (auto simp: lit_def)

lemma lang_EMAIL_REGEX: "s \<in> lang EMAIL_REGEX \<longleftrightarrow> address_shape s"
proof -
  have "s \<in> lang EMAIL_REGEX \<longleftrightarrow>
    (\<exists>l r1. s = l @ r1 \<and> l \<in> lang (plus_rexp (Cls local_class)) \<and>
      (\<exists>a r2. r1 = a @ r2 \<and> a \<in> lang (Cls [lit CHR ''@'']) \<and>
        (\<exists>d r3. r2 = d @ r3 \<and> d \<in> lang (plus_rexp (Cls domain_class)) \<and>
          (\<exists>p t. r3 = p @ t \<and> p \<in> lang (Cls [lit CHR ''.'']) \<and>
             t \<in> lang (at_least_two (Cls alpha_class))))))"
    unfolding EMAIL_REGEX_def lang.simps(4) conc_def by blast
  also have "\<dots> \<longleftrightarrow> address_shape s"
    unfolding lang_plus_cls lang_two_cls lang_lit address_shape_def
      in_local_class in_domain_class in_alpha_class
    by (simp add: list_all_iff cong: conj_cong) blast
  finally show ?thesis .
qed

lemma strip_last: "strip s \<noteq> [] \<Longrightarrow> \<not> isspace (last (strip s))"
proof -
  assume a: "strip s \<noteq> []"
  let ?t = "dropWhile isspace (rev (dropWhile isspace s))"
  from a have ne: "?t \<noteq> []" by (simp add: strip_def)
  then have "\<not> isspace (hd ?t)" by (rule hd_dropWhile)
  moreover have "last (strip s) = hd ?t" using ne by (simp add: strip_def last_rev)
  ultimately show ?thesis by simp
qed

lemma re_match_strip: "re_match r (strip s) = matches r (strip s)"
proof -
  have "\<not> (strip s \<noteq> [] \<and> last (strip s) = 0x0A)"
    using strip_last[of s] by (auto simp: isspace_def)
  then show ?thesis unfolding re_match_def by blast
qed

lemma validate_email_iff:
  "validate_email s \<longleftrightarrow> s \<noteq> [] \<and> length s \<le> 254 \<and> address_shape (strip s)"
  by (auto simp: validate_email_def re_match_strip matches_lang lang_EMAIL_REGEX)

lemma split_nonempty: "split sep s \<noteq> []"
  by (induction s) (auto split: list.splits)

lemma hd_split: "hd (split sep s) = takeWhile (\<lambda>c. c \<noteq> sep) s"
  by (induction s) (auto split: list.splits simp: split_nonempty)

lemma split_at_first: "sep \<notin> set l \<Longrightarrow> split sep (l @ sep # r) = l # split sep r"
  by (induction l) (auto split: list.splits)

lemma backend_validate_email_iff:
  "backend_validate_email s \<longleftrightarrow>
     (\<exists>l r. s = l @ of_char CHR ''@'' # r \<and> of_char CHR ''@'' \<notin> set l \<and>
            of_char CHR ''.'' \<in> set (takeWhile (\<lambda>c. c \<noteq> of_char CHR ''@'') r))"
proof
  assume a: "backend_validate_email s"
  then have "of_char CHR ''@'' \<in> set s" by (simp add: backend_validate_email_def)
  then obtain l r where s: "s = l @ of_char CHR ''@'' # r" "of_char CHR ''@'' \<notin> set l"
    by (meson split_list_first)
  then have "split (of_char CHR ''@'') s ! 1 = takeWhile (\<lambda>c. c \<noteq> of_char CHR ''@'') r"
    using split_at_first[of "of_char CHR ''@''" l r] hd_split[of "of_char CHR ''@''" r]
      split_nonempty[of "of_char CHR ''@''" r]
    by (simp add: hd_conv_nth)
  with a s show "\<exists>l r. s = l @ of_char CHR ''@'' # r \<and> of_char CHR ''@'' \<notin> set l \<and>
            of_char CHR ''.'' \<in> set (takeWhile (\<lambda>c. c \<noteq> of_char CHR ''@'') r)"
    unfolding backend_validate_email_def by metis
next
  assume "\<exists>l r. s = l @ of_char CHR ''@'' # r \<and> of_char CHR ''@'' \<notin> set l \<and>
            of_char CHR ''.'' \<in> set (takeWhile (\<lambda>c. c \<noteq> of_char CHR ''@'') r)"
  then obtain l r where s: "s = l @ of_char CHR ''@'' # r" "of_char CHR ''@'' \<notin> set l"
     and d: "of_char CHR ''.'' \<in> set (takeWhile (\<lambda>c. c \<noteq> of_char CHR ''@'') r)" by blast
  have "split (of_char CHR ''@'') s ! 1 = takeWhile (\<lambda>c. c \<noteq> of_char CHR ''@'') r"
    using s split_at_first[of "of_char CHR ''@''" l r] hd_split[of "of_char CHR ''@''" r]
      split_nonempty[of "of_char CHR ''@''" r]
    by (simp add: hd_conv_nth)
  with s d show "backend_validate_email s"
    unfolding backend_validate_email_def by simp
qed

lemma shape_first: "address_shape s \<Longrightarrow> s \<noteq> [] \<and> local_part_char (hd s)"
  by (auto simp: address_shape_def) (case_tac l, auto)

lemmas rx_eval = validate_email_def py_str_def strip_def isspace_def re_match_def EMAIL_REGEX_def
  plus_rexp_def at_least_two_def local_class_def domain_class_def alpha_class_def rng_def lit_def


lemma validate_email_good: "validate_email (py_str ''a@b.com'')"
  by (simp add: rx_eval)

lemma validate_email_bad: "\<not> validate_email (py_str ''bad'')"
  by (simp add: rx_eval)

lemma backend_validate_email_good: "backend_validate_email (py_str ''a@b.com'')"
  by (simp add: backend_validate_email_def py_str_def)

lemma backend_validate_email_bad: "\<not> backend_validate_email (py_str ''bad'')"
  by (simp add: backend_validate_email_def py_str_def)

section \<open>C3: the address validator\<close>

text \<open>
  C3 as stated fails: \<^verbatim>\<open>EmailValidator.validate_email\<close> matches the pattern against
  \<^verbatim>\<open>email.strip()\<close>, so an address with a leading blank is accepted although the string
  itself does not have the shape.
\<close>

theorem validate_email_leading_blank:
  "validate_email (py_str '' a@b.com'') \<and> \<not> address_shape (py_str '' a@b.com'')"
proof -
  have "validate_email (py_str '' a@b.com'')" by (simp add: rx_eval)
  moreover have "\<not> local_part_char (hd (py_str '' a@b.com''))"
    by (simp add: py_str_def local_part_char_def is_letter_def is_digit_def)
  ultimately show ?thesis using shape_first by blast
qed

text \<open>
  C3, amended. The validator of src/app.py returns false for the empty string and for a
  string of more than 254 characters, and otherwise returns true exactly when the
  string with its leading and trailing whitespace removed has the shape: one or more of
  \<^verbatim>\<open>[A-Za-z0-9._%+-]\<close>, \<^verbatim>\<open>@\<close>, one or more of \<^verbatim>\<open>[A-Za-z0-9.-]\<close>, a dot, and at least two
  letters. The five examples of the specification come out as it says. The validator
  of src/backend/app.py is a different test with no bound on the length: it accepts
  exactly the strings in which a dot stands between the first \<^verbatim>\<open>@\<close> and the next one
  (or the end), so it accepts a well-formed address of 255 characters.
\<close>

theorem validate_email_stripped_shape:
  "(validate_email s \<longleftrightarrow> s \<noteq> [] \<and> length s \<le> 254 \<and> address_shape (strip s)) \<and>
   (length s = 255 \<longrightarrow> \<not> validate_email s) \<and>
   validate_email (py_str ''a@b.com'') \<and>
   \<not> validate_email (py_str []) \<and>
   \<not> validate_email (py_str ''no-at-sign'') \<and>
   \<not> validate_email (py_str ''a@b'') \<and>
   (backend_validate_email s \<longleftrightarrow>
      (\<exists>l r. s = l @ of_char CHR ''@'' # r \<and> of_char CHR ''@'' \<notin> set l \<and>
             of_char CHR ''.'' \<in> set (takeWhile (\<lambda>c. c \<noteq> of_char CHR ''@'') r))) \<and>
   length (replicate 250 (of_char CHR ''a'') @ py_str ''@b.co'') = 255 \<and>
   backend_validate_email (replicate 250 (of_char CHR ''a'') @ py_str ''@b.co'')"
proof -
  have 1: "validate_email s \<longleftrightarrow> s \<noteq> [] \<and> length s \<le> 254 \<and> address_shape (strip s)"
    by (rule validate_email_iff)
  have 2: "length s = 255 \<longrightarrow> \<not> validate_email s" by (simp add: validate_email_def)
  have 3: "validate_email (py_str ''a@b.com'')" by (simp add: rx_eval)
  have 4: "\<not> validate_email (py_str [])" by (simp add: rx_eval)
  have 5: "\<not> validate_email (py_str ''no-at-sign'')" by (simp add: rx_eval)
  have 6: "\<not> validate_email (py_str ''a@b'')" by (simp add: rx_eval)
  have 7: "length (replicate 250 (of_char CHR ''a'') @ py_str ''@b.co'') = 255"
    by (simp add: py_str_def)
  have 8: "backend_validate_email (replicate 250 (of_char CHR ''a'') @ py_str ''@b.co'')"
    unfolding backend_validate_email_iff
    by (rule exI[of _ "replicate 250 (of_char CHR ''a'')"], rule exI[of _ "py_str ''b.co''"])
       (simp add: py_str_def)
  from 1 2 3 4 5 6 7 8 backend_validate_email_iff[of s] show ?thesis by blast
qed

theorem validate_email_stripped_shape_witness:
  "length (replicate 255 (of_char CHR ''a'') :: str) = 255 \<and>
   \<not> validate_email (replicate 255 (of_char CHR ''a''))"
  using validate_email_stripped_shape[of "replicate 255 (of_char CHR ''a'')"] by simp

section \<open>C7: the message builder\<close>

text \<open>
  C7 as stated fails for the builder of src/backend/app.py, which assigns the subject as
  it is: a subject of 201 characters stays 201 characters long.
\<close>

theorem backend_subject_not_truncated:
  "(case create_message_with_attachment relay_ok
          ((campaign_to [])\<lparr>subject := replicate 201 (of_char CHR ''x'')\<rparr>) (py_str ''a@b.com'') of
      Inl e \<Rightarrow> False
    | Inr m \<Rightarrow> length (msg_Subject m) = 201)"
  by (simp add: create_message_with_attachment_def relay_ok_def campaign_to_def utf8_encodable_def
      py_str_def)

text \<open>
  When the builders fail: the builder of src/app.py when the sliced body cannot be
  encoded or the encoding of the attachment fails, the builder of src/backend/app.py
  when the body cannot be encoded or the encoding of the attachment fails. A body
  holding the lone surrogate U+D800 is an example.
\<close>

lemma create_message_fails_iff:
  "isl (create_message ev c r) \<longleftrightarrow>
     \<not> utf8_encodable (take 5000 (body c)) \<or>
     (cv_data c \<noteq> [] \<and> cv_filename c \<noteq> [] \<and> attach_result ev \<noteq> None)"
  by (auto simp: create_message_def MAX_EMAIL_BODY_LENGTH_def Let_def split: option.splits)

lemma create_message_with_attachment_fails_iff:
  "isl (create_message_with_attachment ev c r) \<longleftrightarrow>
     \<not> utf8_encodable (body c) \<or> attach_result ev \<noteq> None"
  by (auto simp: create_message_with_attachment_def Let_def split: option.splits)

lemma create_message_surrogate:
  "create_message relay_ok ((campaign_to [])\<lparr>body := [0xD800]\<rparr>) (py_str ''a@b.com'') =
     Inl (OtherException (py_str ''surrogates not allowed''))"
  by (simp add: create_message_def relay_ok_def campaign_to_def utf8_encodable_def
      MAX_EMAIL_BODY_LENGTH_def)

text \<open>
  C7, amended. The builder of src/app.py treats a subject and a body exactly as it
  treats their first 200 and first 5000 characters, so an over-length subject or body
  is never rejected for its length; the message it builds carries the subject cut to
  at most 200 characters and the body cut to at most 5000, and the body is attached as
  plain text. The builder of src/backend/app.py assigns subject and body unchanged,
  whatever their length, and attaches the body as plain text too.
\<close>

theorem create_message_truncates:
  "create_message ev c r =
     create_message ev (c\<lparr>subject := take 200 (subject c), body := take 5000 (body c)\<rparr>) r \<and>
   (case create_message ev c r of
      Inl e \<Rightarrow> True
    | Inr m \<Rightarrow>
        msg_Subject m = take 200 (subject c) \<and> length (msg_Subject m) \<le> 200 \<and>
        msg_text m = take 5000 (body c) \<and> length (msg_text m) \<le> 5000 \<and>
        msg_text_subtype m = py_str ''plain'') \<and>
   (case create_message_with_attachment ev c r of
      Inl e \<Rightarrow> True
    | Inr m \<Rightarrow>
        msg_Subject m = subject c \<and> msg_text m = body c \<and>
        msg_text_subtype m = py_str ''plain'')"
proof -
  have 1: "create_message ev c r =
     create_message ev (c\<lparr>subject := take 200 (subject c), body := take 5000 (body c)\<rparr>) r"
    by (simp add: create_message_def MAX_SUBJECT_LENGTH_def MAX_EMAIL_BODY_LENGTH_def Let_def
        split: option.splits)
  have 2: "(case create_message ev c r of
      Inl e \<Rightarrow> True
    | Inr m \<Rightarrow>
        msg_Subject m = take 200 (subject c) \<and> length (msg_Subject m) \<le> 200 \<and>
        msg_text m = take 5000 (body c) \<and> length (msg_text m) \<le> 5000 \<and>
        msg_text_subtype m = py_str ''plain'')"
    by (auto simp: create_message_def MAX_SUBJECT_LENGTH_def MAX_EMAIL_BODY_LENGTH_def Let_def
        split: option.splits)
  have 3: "(case create_message_with_attachment ev c r of
      Inl e \<Rightarrow> True
    | Inr m \<Rightarrow>
        msg_Subject m = subject c \<and> msg_text m = body c \<and>
        msg_text_subtype m = py_str ''plain'')"
    by (auto simp: create_message_with_attachment_def Let_def split: option.splits)
  from 1 2 3 show ?thesis by blast
qed

text \<open>
  C7 on a subject of 201 and a body of 5001 characters: the builder of src/app.py
  succeeds, with the first 200 and the first 5000 characters.
\<close>

theorem create_message_truncates_witness:
  "(case create_message relay_ok
          ((campaign_to [])\<lparr>subject := replicate 201 (of_char CHR ''x''),
                             body := replicate 5001 (of_char CHR ''y'')\<rparr>) (py_str ''a@b.com'') of
      Inl e \<Rightarrow> False
    | Inr m \<Rightarrow> msg_Subject m = replicate 200 (of_char CHR ''x'') \<and>
               msg_text m = replicate 5000 (of_char CHR ''y''))"
proof -
  let ?c = "(campaign_to [])\<lparr>subject := replicate 201 (of_char CHR ''x''),
                             body := replicate 5001 (of_char CHR ''y'')\<rparr>"
  have ok: "\<not> isl (create_message relay_ok ?c (py_str ''a@b.com''))"
    unfolding create_message_fails_iff
    by (simp add: relay_ok_def campaign_to_def utf8_encodable_def list_all_iff)
  then obtain m where m: "create_message relay_ok ?c (py_str ''a@b.com'') = Inr m"
    by (cases "create_message relay_ok ?c (py_str ''a@b.com'')") simp_all
  from create_message_truncates[of relay_ok ?c "py_str ''a@b.com''"]
  have "msg_Subject m = take 200 (subject ?c) \<and> msg_text m = take 5000 (body ?c)"
    unfolding m by simp
  then have "msg_Subject m = replicate 200 (of_char CHR ''x'') \<and>
             msg_text m = replicate 5000 (of_char CHR ''y'')"
    by simp
  then show ?thesis unfolding m by simp
qed

section \<open>C9: testing credentials\<close>

lemma probe_session_cases:
  "call a1 r1 (call a2 r2 (call a3 r3 (call a4 r4 ([], None)))) =
     (case r1 of Some e \<Rightarrow> ([a1], Some e) | None \<Rightarrow>
      (case r2 of Some e \<Rightarrow> ([a1, a2], Some e) | None \<Rightarrow>
       (case r3 of Some e \<Rightarrow> ([a1, a2, a3], Some e) | None \<Rightarrow>
         ([a1, a2, a3, a4], r4))))"
  by (simp add: call_def split: option.splits)

lemma test_email_gate:
  "test_email ev None = ([], Response (py_str ''error'') (py_str ''No data provided'') 400)"
  "test_email ev (Some []) = ([], Response (py_str ''error'') (py_str ''No data provided'') 400)"
  "d \<noteq> [] \<Longrightarrow> \<not> validate_email (strip (dict_get d (py_str ''sender_email'') [])) \<Longrightarrow>
   test_email ev (Some d) = ([], Response (py_str ''error'') (py_str ''Invalid email format'') 400)"
  by (simp_all add: test_email_def)

lemma test_email_response_cases:
  "test_email_response (Some e) =
     (case e of
        SMTPAuthenticationError m \<Rightarrow>
          Response (py_str ''error'')
            (py_str ''Authentication failed. For Gmail, use an App Password from https://myaccount.google.com/apppasswords'')
            401
      | SMTPException m \<Rightarrow> Response (py_str ''error'') (py_str ''Connection failed'') 500
      | OtherException m \<Rightarrow> Response (py_str ''error'') (py_str ''Connection failed'') 500)"
  by (cases e) simp_all

lemma backend_test_email_response_cases:
  "backend_test_email_response (Some e) =
     (case e of
        SMTPAuthenticationError m \<Rightarrow>
          Response (py_str ''error'')
            (py_str ''Authentication failed. For Gmail, use an App Password from https://myaccount.google.com/apppasswords'')
            401
      | SMTPException m \<Rightarrow> Response (py_str ''error'') m 500
      | OtherException m \<Rightarrow> Response (py_str ''error'') m 500)"
  by (cases e) simp_all

lemma test_email_table:
  assumes "d \<noteq> []" and "validate_email (strip (dict_get d (py_str ''sender_email'') []))"
  shows "test_email ev (Some d) =
     (let sender = strip (dict_get d (py_str ''sender_email'') []);
          secret = dict_get d (py_str ''password'') [];
          opened = Connect (py_str ''smtp.gmail.com'') 587 (Some 10);
          login = Login sender secret;
          failed = (\<lambda>e. case e of
              SMTPAuthenticationError m \<Rightarrow>
                Response (py_str ''error'')
                  (py_str ''Authentication failed. For Gmail, use an App Password from https://myaccount.google.com/apppasswords'')
                  401
            | SMTPException m \<Rightarrow> Response (py_str ''error'') (py_str ''Connection failed'') 500
            | OtherException m \<Rightarrow> Response (py_str ''error'') (py_str ''Connection failed'') 500)
      in case connect_result ev of Some e \<Rightarrow> ([opened], failed e) | None \<Rightarrow>
         (case starttls_result ev of Some e \<Rightarrow> ([opened, StartTLS], failed e) | None \<Rightarrow>
          (case login_result ev of Some e \<Rightarrow> ([opened, StartTLS, login], failed e) | None \<Rightarrow>
           (case quit_result ev of Some e \<Rightarrow> ([opened, StartTLS, login, Quit], failed e)
            | None \<Rightarrow> ([opened, StartTLS, login, Quit],
                Response (py_str ''success'') (py_str ''Authentication successful'') 200)))))"
proof -
  have "test_email ev (Some d) =
     (case call (Connect (py_str ''smtp.gmail.com'') 587 (Some 10)) (connect_result ev)
             (call StartTLS (starttls_result ev)
               (call (Login (strip (dict_get d (py_str ''sender_email'') []))
                            (dict_get d (py_str ''password'') [])) (login_result ev)
                 (call Quit (quit_result ev) ([], None)))) of
        (done, raised) \<Rightarrow> (done, test_email_response raised))"
    using assms by (simp add: test_email_def Let_def)
  then show ?thesis
    unfolding probe_session_cases Let_def
    by (simp add: test_email_response_cases split: option.splits)
qed

lemma backend_test_email_table:
  "backend_test_email ev sender secret =
     (let opened = Connect (py_str ''smtp.gmail.com'') 587 None;
          login = Login sender secret;
          failed = (\<lambda>e. case e of
              SMTPAuthenticationError m \<Rightarrow>
                Response (py_str ''error'')
                  (py_str ''Authentication failed. For Gmail, use an App Password from https://myaccount.google.com/apppasswords'')
                  401
            | SMTPException m \<Rightarrow> Response (py_str ''error'') m 500
            | OtherException m \<Rightarrow> Response (py_str ''error'') m 500)
      in case connect_result ev of Some e \<Rightarrow> ([opened], failed e) | None \<Rightarrow>
         (case starttls_result ev of Some e \<Rightarrow> ([opened, StartTLS], failed e) | None \<Rightarrow>
          (case login_result ev of Some e \<Rightarrow> ([opened, StartTLS, login], failed e) | None \<Rightarrow>
           (case quit_result ev of Some e \<Rightarrow> ([opened, StartTLS, login, Quit], failed e)
            | None \<Rightarrow> ([opened, StartTLS, login, Quit],
                Response (py_str ''success'') (py_str ''Authentication successful'') 200)))))"
proof -
  have "backend_test_email ev sender secret =
     (case call (Connect (py_str ''smtp.gmail.com'') 587 None) (connect_result ev)
             (call StartTLS (starttls_result ev)
               (call (Login sender secret) (login_result ev)
                 (call Quit (quit_result ev) ([], None)))) of
        (done, raised) \<Rightarrow> (done, backend_test_email_response raised))"
    by (simp add: backend_test_email_def)
  then show ?thesis
    unfolding probe_session_cases Let_def
    by (simp add: backend_test_email_response_cases split: option.splits)
qed


lemma failed_status:
  "status_code (case e of
      SMTPAuthenticationError m \<Rightarrow> Response a b 401
    | SMTPException m \<Rightarrow> Response a' b' 500
    | OtherException m \<Rightarrow> Response a'' b'' 500) \<noteq> 200"
  by (cases e) simp_all

lemma test_email_derived:
  assumes "d \<noteq> []" and "validate_email (strip (dict_get d (py_str ''sender_email'') []))"
  shows "\<not> list_ex is_sendmail (fst (test_email ev (Some d)))"
    and "status_code (snd (test_email ev (Some d))) = 200 \<longleftrightarrow>
           connect_result ev = None \<and> starttls_result ev = None \<and>
           login_result ev = None \<and> quit_result ev = None"
    and "Quit \<in> set (fst (test_email ev (Some d))) \<longleftrightarrow>
           connect_result ev = None \<and> starttls_result ev = None \<and> login_result ev = None"
  unfolding test_email_table[OF assms] Let_def
  by (simp_all add: failed_status split: option.splits)

lemma backend_test_email_derived:
  "\<not> list_ex is_sendmail (fst (backend_test_email ev sender secret))"
  unfolding backend_test_email_table Let_def
  by (simp split: option.splits)

text \<open>
  C9 as stated fails: with a valid identity and a relay that rejects the login,
  \<^verbatim>\<open>test_email\<close> of src/app.py answers 401 after connecting, securing and trying to log
  in, and \<^verbatim>\<open>quit\<close> is never called: the session is not closed.
\<close>

theorem test_email_leaves_session_open:
  "validate_email (py_str ''a@b.com'') \<and>
   test_email relay_rejecting (probe_request ''a@b.com'') =
     ([Connect (py_str ''smtp.gmail.com'') 587 (Some 10), StartTLS,
       Login (py_str ''a@b.com'') (py_str ''secret'')],
      Response (py_str ''error'')
        (py_str ''Authentication failed. For Gmail, use an App Password from https://myaccount.google.com/apppasswords'')
        401)"
proof -
  have v: "strip (dict_get (the (probe_request ''a@b.com'')) (py_str ''sender_email'') []) = py_str ''a@b.com''"
    by (simp add: probe_request_def dict_get_def py_str_def strip_def isspace_def)
  have s: "dict_get (the (probe_request ''a@b.com'')) (py_str ''password'') [] = py_str ''secret''"
    by (simp add: probe_request_def dict_get_def py_str_def)
  have ne: "the (probe_request ''a@b.com'') \<noteq> []" by (simp add: probe_request_def)
  have pr: "probe_request ''a@b.com'' = Some (the (probe_request ''a@b.com''))"
    by (simp add: probe_request_def)
  have val: "validate_email (strip (dict_get (the (probe_request ''a@b.com'')) (py_str ''sender_email'') []))"
    unfolding v by (rule validate_email_good)
  have "test_email relay_rejecting (Some (the (probe_request ''a@b.com''))) =
     ([Connect (py_str ''smtp.gmail.com'') 587 (Some 10), StartTLS,
       Login (py_str ''a@b.com'') (py_str ''secret'')],
      Response (py_str ''error'')
        (py_str ''Authentication failed. For Gmail, use an App Password from https://myaccount.google.com/apppasswords'')
        401)"
    unfolding test_email_table[OF ne val] Let_def v s
    by (simp add: relay_rejecting_def relay_ok_def)
  then show ?thesis using validate_email_good pr by simp
qed

text \<open>
  C9, amended. For every identity that passes the address validator and every secret,
  \<^verbatim>\<open>test_email\<close> of src/app.py opens a session to \<^verbatim>\<open>smtp.gmail.com:587\<close> with a timeout of 10
  seconds and then calls \<^verbatim>\<open>starttls\<close>, \<^verbatim>\<open>login\<close> and \<^verbatim>\<open>quit\<close>, each only if every call before
  it returned, so the session is closed exactly when connecting, securing and logging in
  all returned. It answers 200 exactly when all four calls return; when a call raises,
  it answers 401 with the app-password hint if the exception is an
  \<^verbatim>\<open>SMTPAuthenticationError\<close> and 500 with \<^verbatim>\<open>Connection failed\<close> if it is any other exception.
  It never submits a message. \<^verbatim>\<open>test_email\<close> of src/backend/app.py makes the same calls
  without a timeout, answers in the same way except that its 500 answer carries
  \<^verbatim>\<open>str(e)\<close>, and never submits a message either.
\<close>

theorem test_email_contract:
  "(d \<noteq> [] \<and> validate_email (strip (dict_get d (py_str ''sender_email'') [])) \<longrightarrow>
      test_email ev (Some d) =
       (let sender = strip (dict_get d (py_str ''sender_email'') []);
            secret = dict_get d (py_str ''password'') [];
            opened = Connect (py_str ''smtp.gmail.com'') 587 (Some 10);
            login = Login sender secret;
            failed = (\<lambda>e. case e of
                SMTPAuthenticationError m \<Rightarrow>
                  Response (py_str ''error'')
                    (py_str ''Authentication failed. For Gmail, use an App Password from https://myaccount.google.com/apppasswords'')
                    401
              | SMTPException m \<Rightarrow> Response (py_str ''error'') (py_str ''Connection failed'') 500
              | OtherException m \<Rightarrow> Response (py_str ''error'') (py_str ''Connection failed'') 500)
        in case connect_result ev of Some e \<Rightarrow> ([opened], failed e) | None \<Rightarrow>
           (case starttls_result ev of Some e \<Rightarrow> ([opened, StartTLS], failed e) | None \<Rightarrow>
            (case login_result ev of Some e \<Rightarrow> ([opened, StartTLS, login], failed e) | None \<Rightarrow>
             (case quit_result ev of Some e \<Rightarrow> ([opened, StartTLS, login, Quit], failed e)
              | None \<Rightarrow> ([opened, StartTLS, login, Quit],
                  Response (py_str ''success'') (py_str ''Authentication successful'') 200))))) \<and>
      \<not> list_ex is_sendmail (fst (test_email ev (Some d))) \<and>
      (status_code (snd (test_email ev (Some d))) = 200 \<longleftrightarrow>
         connect_result ev = None \<and> starttls_result ev = None \<and>
         login_result ev = None \<and> quit_result ev = None) \<and>
      (Quit \<in> set (fst (test_email ev (Some d))) \<longleftrightarrow>
         connect_result ev = None \<and> starttls_result ev = None \<and> login_result ev = None)) \<and>
   backend_test_email ev sender' secret' =
     (let opened = Connect (py_str ''smtp.gmail.com'') 587 None;
          login = Login sender' secret';
          failed = (\<lambda>e. case e of
              SMTPAuthenticationError m \<Rightarrow>
                Response (py_str ''error'')
                  (py_str ''Authentication failed. For Gmail, use an App Password from https://myaccount.google.com/apppasswords'')
                  401
            | SMTPException m \<Rightarrow> Response (py_str ''error'') m 500
            | OtherException m \<Rightarrow> Response (py_str ''error'') m 500)
      in case connect_result ev of Some e \<Rightarrow> ([opened], failed e) | None \<Rightarrow>
         (case starttls_result ev of Some e \<Rightarrow> ([opened, StartTLS], failed e) | None \<Rightarrow>
          (case login_result ev of Some e \<Rightarrow> ([opened, StartTLS, login], failed e) | None \<Rightarrow>
           (case quit_result ev of Some e \<Rightarrow> ([opened, StartTLS, login, Quit], failed e)
            | None \<Rightarrow> ([opened, StartTLS, login, Quit],
                Response (py_str ''success'') (py_str ''Authentication successful'') 200))))) \<and>
   \<not> list_ex is_sendmail (fst (backend_test_email ev sender' secret'))"
proof -
  have 1: "d \<noteq> [] \<and> validate_email (strip (dict_get d (py_str ''sender_email'') [])) \<longrightarrow>
      test_email ev (Some d) =
       (let sender = strip (dict_get d (py_str ''sender_email'') []);
            secret = dict_get d (py_str ''password'') [];
            opened = Connect (py_str ''smtp.gmail.com'') 587 (Some 10);
            login = Login sender secret;
            failed = (\<lambda>e. case e of
                SMTPAuthenticationError m \<Rightarrow>
                  Response (py_str ''error'')
                    (py_str ''Authentication failed. For Gmail, use an App Password from https://myaccount.google.com/apppasswords'')
                    401
              | SMTPException m \<Rightarrow> Response (py_str ''error'') (py_str ''Connection failed'') 500
              | OtherException m \<Rightarrow> Response (py_str ''error'') (py_str ''Connection failed'') 500)
        in case connect_result ev of Some e \<Rightarrow> ([opened], failed e) | None \<Rightarrow>
           (case starttls_result ev of Some e \<Rightarrow> ([opened, StartTLS], failed e) | None \<Rightarrow>
            (case login_result ev of Some e \<Rightarrow> ([opened, StartTLS, login], failed e) | None \<Rightarrow>
             (case quit_result ev of Some e \<Rightarrow> ([opened, StartTLS, login, Quit], failed e)
              | None \<Rightarrow> ([opened, StartTLS, login, Quit],
                  Response (py_str ''success'') (py_str ''Authentication successful'') 200))))) \<and>
      \<not> list_ex is_sendmail (fst (test_email ev (Some d))) \<and>
      (status_code (snd (test_email ev (Some d))) = 200 \<longleftrightarrow>
         connect_result ev = None \<and> starttls_result ev = None \<and>
         login_result ev = None \<and> quit_result ev = None) \<and>
      (Quit \<in> set (fst (test_email ev (Some d))) \<longleftrightarrow>
         connect_result ev = None \<and> starttls_result ev = None \<and> login_result ev = None)"
    using test_email_table[of d ev] test_email_derived[of d ev] by blast
  have 2: "backend_test_email ev sender' secret' =
     (let opened = Connect (py_str ''smtp.gmail.com'') 587 None;
          login = Login sender' secret';
          failed = (\<lambda>e. case e of
              SMTPAuthenticationError m \<Rightarrow>
                Response (py_str ''error'')
                  (py_str ''Authentication failed. For Gmail, use an App Password from https://myaccount.google.com/apppasswords'')
                  401
            | SMTPException m \<Rightarrow> Response (py_str ''error'') m 500
            | OtherException m \<Rightarrow> Response (py_str ''error'') m 500)
      in case connect_result ev of Some e \<Rightarrow> ([opened], failed e) | None \<Rightarrow>
         (case starttls_result ev of Some e \<Rightarrow> ([opened, StartTLS], failed e) | None \<Rightarrow>
          (case login_result ev of Some e \<Rightarrow> ([opened, StartTLS, login], failed e) | None \<Rightarrow>
           (case quit_result ev of Some e \<Rightarrow> ([opened, StartTLS, login, Quit], failed e)
            | None \<Rightarrow> ([opened, StartTLS, login, Quit],
                Response (py_str ''success'') (py_str ''Authentication successful'') 200)))))"
    by (rule backend_test_email_table)
  have 3: "\<not> list_ex is_sendmail (fst (backend_test_email ev sender' secret'))"
    by (rule backend_test_email_derived)
  from 1 2 3 show ?thesis by blast
qed

text \<open>
  C9 at a valid identity and a relay that accepts every call: the four calls are made
  and the answer is 200.
\<close>

theorem test_email_contract_witness:
  "the (probe_request ''a@b.com'') \<noteq> [] \<and>
   validate_email (strip (dict_get (the (probe_request ''a@b.com'')) (py_str ''sender_email'') [])) \<and>
   test_email relay_ok (probe_request ''a@b.com'') =
     ([Connect (py_str ''smtp.gmail.com'') 587 (Some 10), StartTLS,
       Login (py_str ''a@b.com'') (py_str ''secret''), Quit],
      Response (py_str ''success'') (py_str ''Authentication successful'') 200)"
proof -
  have v: "strip (dict_get (the (probe_request ''a@b.com'')) (py_str ''sender_email'') []) = py_str ''a@b.com''"
    by (simp add: probe_request_def dict_get_def py_str_def strip_def isspace_def)
  have s: "dict_get (the (probe_request ''a@b.com'')) (py_str ''password'') [] = py_str ''secret''"
    by (simp add: probe_request_def dict_get_def py_str_def)
  have ne: "the (probe_request ''a@b.com'') \<noteq> []" by (simp add: probe_request_def)
  have pr: "probe_request ''a@b.com'' = Some (the (probe_request ''a@b.com''))"
    by (simp add: probe_request_def)
  have val: "validate_email (strip (dict_get (the (probe_request ''a@b.com'')) (py_str ''sender_email'') []))"
    unfolding v by (rule validate_email_good)
  from test_email_contract[of "the (probe_request ''a@b.com'')" relay_ok] ne val
  have "test_email relay_ok (Some (the (probe_request ''a@b.com''))) =
     ([Connect (py_str ''smtp.gmail.com'') 587 (Some 10), StartTLS,
       Login (py_str ''a@b.com'') (py_str ''secret''), Quit],
      Response (py_str ''success'') (py_str ''Authentication successful'') 200)"
    unfolding Let_def v s by (simp add: relay_ok_def)
  with ne val pr show ?thesis by simp
qed

section \<open>Evaluating a run\<close>

lemma bit_length_simps:
  "bit_length 0 = 0" "0 < n \<Longrightarrow> bit_length n = Suc (bit_length (n div 2))"
  by (simp_all add: bit_length.simps)

lemmas percent_eval = progress_percent_def float_to_int_def float_times_def true_divide_def
  round_div_def bit_length_simps Let_def

text \<open>
  The figure is not always the exact floor of \<open>100 * i / total\<close>: the double nearest to
  \<open>29 / 100\<close> times 100 rounds to a double just below 29.
\<close>

lemma percent_29_100: "progress_percent 29 100 = 28 \<and> (100 * 29) div 100 = (29::nat)"
  by (simp add: percent_eval)

lemma percent_1_2: "progress_percent 1 2 = 50" by (simp add: percent_eval)
lemma percent_2_2: "progress_percent 2 2 = 100" by (simp add: percent_eval)
lemma percent_1_2_Suc: "progress_percent (Suc 0) (Suc (Suc 0)) = 50"
  using percent_1_2 by (simp add: numeral_2_eq_2)
lemma percent_2_2_Suc: "progress_percent (Suc (Suc 0)) (Suc (Suc 0)) = 100"
  using percent_2_2 by (simp add: numeral_2_eq_2)

lemma str_nat_digit: "n < 10 \<Longrightarrow> str_nat n = [of_char CHR ''0'' + n]"
  by (simp add: str_nat.simps)

lemmas run_eval = send_emails_batch_def send_emails_generator_def batch_iteration_def
  generator_iteration_def finally_quit_def progress_event_def completed_message_def
  create_message_def create_message_with_attachment_def relay_ok_def campaign_to_def
  email_sender_def EMAIL_DELAY_def SMTP_TIMEOUT_def str_nat_digit
  validate_email_good[unfolded py_str_def, simplified] validate_email_bad[unfolded py_str_def, simplified]
  backend_validate_email_good[unfolded py_str_def, simplified]
  backend_validate_email_bad[unfolded py_str_def, simplified]
  percent_1_2_Suc percent_2_2_Suc py_str_def strip_def isspace_def
  utf8_encodable_def MAX_EMAIL_BODY_LENGTH_def

text \<open>
  C1 fails on \<^verbatim>\<open>send_emails_batch\<close> of src/app.py. The campaign has two recipients, a valid
  address and then \<^verbatim>\<open>bad\<close>, and the relay accepts every call. The first recipient gets
  its success log and its progress event. The second gets its error log only: the
  \<^verbatim>\<open>continue\<close> of the validation branch skips the progress update, so the completion
  log follows the error log at once and no progress event is emitted for that recipient.
\<close>

theorem batch_skips_progress:
  "events (send_emails_batch email_sender relay_ok (campaign_to [py_str ''a@b.com'', py_str ''bad''])) =
     [Log (py_str ''Starting email campaign...'') Info,
      Log (py_str ''Connecting to smtp.gmail.com...'') Info,
      Log (py_str ''Authenticating...'') Info,
      Log (py_str ''Authentication successful'') Success,
      Log (py_str ''Sending to 2 recipients...'') Info,
      Log ([0x2713] @ py_str '' Sent to: a@b.com'') Success,
      Progress 50 2 1 0 1,
      Log (py_str ''Invalid email: bad'') Error,
      Log (py_str ''Campaign completed! Sent: 1, Failed: 1'') Success,
      Complete 1 1]"
  by (simp add: run_eval)

text \<open>
  On the same campaign \<^verbatim>\<open>send_emails_generator\<close> of src/backend/app.py, where the
  validation is one arm of an \<^verbatim>\<open>if ... else\<close>, emits the progress event of the invalid
  recipient after its error log.
\<close>

lemma generator_keeps_progress:
  "events (send_emails_generator relay_ok (campaign_to [py_str ''a@b.com'', py_str ''bad''])) =
     [Log (py_str ''Starting email campaign...'') Info,
      Log (py_str ''Connecting to SMTP server (smtp.gmail.com)...'') Info,
      Log (py_str ''Authenticating...'') Info,
      Log (py_str ''Successfully authenticated'') Success,
      Log (py_str ''Starting to send emails to 2 recipients'') Info,
      Log (py_str ''Email sent to: a@b.com'') Success,
      Progress 50 2 1 0 1,
      Log (py_str ''Invalid email: bad'') Error,
      Progress 100 2 1 1 0,
      Log (py_str ''Campaign completed! Sent: 1, Failed: 1'') Success,
      Complete 1 1]"
  by (simp add: run_eval)

section \<open>One pass through the loop\<close>

lemma followed_iff: "(x, post) \<in> set (followed xs) \<longleftrightarrow> (\<exists>pre. xs = pre @ x # post)"
proof (induction xs)
  case Nil
  then show ?case by simp
next
  case (Cons a xs)
  show ?case
  proof
    assume "(x, post) \<in> set (followed (a # xs))"
    then consider "x = a \<and> post = xs" | "(x, post) \<in> set (followed xs)" by auto
    then show "\<exists>pre. a # xs = pre @ x # post"
    proof cases
      case 1
      then have "a # xs = [] @ x # post" by simp
      then show ?thesis by blast
    next
      case 2
      with Cons obtain pre where "xs = pre @ x # post" by blast
      then have "a # xs = (a # pre) @ x # post" by simp
      then show ?thesis by blast
    qed
  next
    assume "\<exists>pre. a # xs = pre @ x # post"
    then obtain pre where p: "a # xs = pre @ x # post" by blast
    show "(x, post) \<in> set (followed (a # xs))"
    proof (cases pre)
      case Nil
      with p show ?thesis by simp
    next
      case (Cons b pre')
      with p have "xs = pre' @ x # post" by simp
      with Cons.IH show ?thesis by auto
    qed
  qed
qed

lemma followed_append:
  "followed (xs @ ys) = map (\<lambda>(x, p). (x, p @ ys)) (followed xs) @ followed ys"
  by (induction xs) auto

lemma events_append: "events (xs @ ys) = events xs @ events ys"
  by (induction xs rule: events.induct) auto

lemma batch_iteration_counters:
  "snd (batch_iteration ev c tot i r (s, f)) =
     (if validate_email r \<and> \<not> isl (create_message ev c r) \<and> sendmail_result ev i = None
      then (s + 1, f) else (s, f + 1))"
  by (auto simp: batch_iteration_def Let_def split: sum.splits option.splits)

lemma generator_iteration_counters:
  "snd (generator_iteration ev c tot i r (s, f)) =
     (if backend_validate_email r \<and> \<not> isl (create_message_with_attachment ev c r)
         \<and> sendmail_result ev i = None
      then (s + 1, f) else (s, f + 1))"
  by (auto simp: generator_iteration_def Let_def split: sum.splits option.splits)

lemma batch_iteration_followed:
  assumes "(Yield (Progress p t s' f' q), post) \<in> set (followed (fst (batch_iteration ev c tot i r (s, f))))"
  shows "Progress p t s' f' q = progress_event i tot s' f' \<and>
         (s', f') = snd (batch_iteration ev c tot i r (s, f)) \<and>
         post = (if i < tot then [Sleep 1] else [])"
  using assms
  by (auto simp: batch_iteration_def Let_def progress_event_def EMAIL_DELAY_def
      split: sum.splits option.splits if_splits)

lemma generator_iteration_followed:
  assumes "(Yield (Progress p t s' f' q), post) \<in> set (followed (fst (generator_iteration ev c tot i r (s, f))))"
  shows "Progress p t s' f' q = progress_event i tot s' f' \<and>
         (s', f') = snd (generator_iteration ev c tot i r (s, f)) \<and>
         post = [Sleep (1 / 2)]"
  using assms
  by (auto simp: generator_iteration_def Let_def progress_event_def
      split: sum.splits option.splits if_splits)

section \<open>The loop\<close>

lemma batch_loop_Cons:
  "batch_loop ev c tot i (r # rs) st =
     (fst (batch_iteration ev c tot i r st) @
        fst (batch_loop ev c tot (Suc i) rs (snd (batch_iteration ev c tot i r st))),
      snd (batch_loop ev c tot (Suc i) rs (snd (batch_iteration ev c tot i r st))))"
  by (simp add: case_prod_beta)

lemma generator_loop_Cons:
  "generator_loop ev c tot i (r # rs) st =
     (fst (generator_iteration ev c tot i r st) @
        fst (generator_loop ev c tot (Suc i) rs (snd (generator_iteration ev c tot i r st))),
      snd (generator_loop ev c tot (Suc i) rs (snd (generator_iteration ev c tot i r st))))"
  by (simp add: case_prod_beta)

lemma batch_iteration_step:
  "\<exists>s' f'. snd (batch_iteration ev c tot i r (s, f)) = (s', f') \<and>
     ((s' = s + 1 \<and> f' = f) \<or> (s' = s \<and> f' = f + 1))"
  by (simp add: batch_iteration_counters)

lemma generator_iteration_step:
  "\<exists>s' f'. snd (generator_iteration ev c tot i r (s, f)) = (s', f') \<and>
     ((s' = s + 1 \<and> f' = f) \<or> (s' = s \<and> f' = f + 1))"
  by (simp add: generator_iteration_counters)



lemma batch_loop_progress:
  assumes "(Yield (Progress p t s' f' q), post) \<in> set (followed (fst (batch_loop ev c tot i rs (s, f))))"
    and "s + f + 1 = i" and "i + length rs = tot + 1"
  shows "t = tot \<and> p = progress_percent (s' + f') tot \<and> q = int t - int s' - int f' \<and>
         s + f < s' + f' \<and> s' + f' \<le> tot \<and>
         (s' + f' < tot \<longrightarrow> (\<exists>post'. post = Sleep 1 # post')) \<and>
         (s' + f' = tot \<longrightarrow> post = [])"
  using assms
proof (induction rs arbitrary: i s f)
  case Nil
  then show ?case by simp
next
  case (Cons r rs)
  obtain s1 f1 where st: "snd (batch_iteration ev c tot i r (s, f)) = (s1, f1)"
    and step: "(s1 = s + 1 \<and> f1 = f) \<or> (s1 = s \<and> f1 = f + 1)"
    using batch_iteration_step by blast
  let ?first = "fst (batch_iteration ev c tot i r (s, f))"
  let ?others = "fst (batch_loop ev c tot (Suc i) rs (s1, f1))"
  from Cons.prems(1) have
    "(\<exists>post1. (Yield (Progress p t s' f' q), post1) \<in> set (followed ?first) \<and> post = post1 @ ?others) \<or>
     (Yield (Progress p t s' f' q), post) \<in> set (followed ?others)"
    unfolding batch_loop_Cons fst_conv followed_append st by auto
  then show ?case
  proof
    assume "\<exists>post1. (Yield (Progress p t s' f' q), post1) \<in> set (followed ?first) \<and> post = post1 @ ?others"
    then obtain post1 where m: "(Yield (Progress p t s' f' q), post1) \<in> set (followed ?first)"
      and post: "post = post1 @ ?others" by blast
    from batch_iteration_followed[OF m] st have
      e: "Progress p t s' f' q = progress_event i tot s' f'" and sf: "s' = s1" "f' = f1"
      and p1: "post1 = (if i < tot then [Sleep 1] else [])" by auto
    have sum: "s' + f' = i" using sf step Cons.prems(2) by auto
    have "i = tot \<Longrightarrow> rs = []" using Cons.prems(3) by simp
    then have "i = tot \<Longrightarrow> ?others = []" by simp
    with e sum p1 post Cons.prems(2,3) show ?thesis
      by (auto simp: progress_event_def)
  next
    assume a: "(Yield (Progress p t s' f' q), post) \<in> set (followed ?others)"
    have "s1 + f1 + 1 = Suc i" using step Cons.prems(2) by auto
    moreover have "Suc i + length rs = tot + 1" using Cons.prems(3) by simp
    ultimately have "t = tot \<and> p = progress_percent (s' + f') tot \<and> q = int t - int s' - int f' \<and>
         s1 + f1 < s' + f' \<and> s' + f' \<le> tot \<and>
         (s' + f' < tot \<longrightarrow> (\<exists>post'. post = Sleep 1 # post')) \<and>
         (s' + f' = tot \<longrightarrow> post = [])"
      using Cons.IH[OF a] by blast
    with step show ?thesis by auto
  qed
qed

lemma generator_loop_progress:
  assumes "(Yield (Progress p t s' f' q), post) \<in> set (followed (fst (generator_loop ev c tot i rs (s, f))))"
    and "s + f + 1 = i" and "i + length rs = tot + 1"
  shows "t = tot \<and> p = progress_percent (s' + f') tot \<and> q = int t - int s' - int f' \<and>
         s + f < s' + f' \<and> s' + f' \<le> tot \<and>
         (\<exists>post'. post = Sleep (1 / 2) # post')"
  using assms
proof (induction rs arbitrary: i s f)
  case Nil
  then show ?case by simp
next
  case (Cons r rs)
  obtain s1 f1 where st: "snd (generator_iteration ev c tot i r (s, f)) = (s1, f1)"
    and step: "(s1 = s + 1 \<and> f1 = f) \<or> (s1 = s \<and> f1 = f + 1)"
    using generator_iteration_step by blast
  let ?first = "fst (generator_iteration ev c tot i r (s, f))"
  let ?others = "fst (generator_loop ev c tot (Suc i) rs (s1, f1))"
  from Cons.prems(1) have
    "(\<exists>post1. (Yield (Progress p t s' f' q), post1) \<in> set (followed ?first) \<and> post = post1 @ ?others) \<or>
     (Yield (Progress p t s' f' q), post) \<in> set (followed ?others)"
    unfolding generator_loop_Cons fst_conv followed_append st by auto
  then show ?case
  proof
    assume "\<exists>post1. (Yield (Progress p t s' f' q), post1) \<in> set (followed ?first) \<and> post = post1 @ ?others"
    then obtain post1 where m: "(Yield (Progress p t s' f' q), post1) \<in> set (followed ?first)"
      and post: "post = post1 @ ?others" by blast
    from generator_iteration_followed[OF m] st have
      e: "Progress p t s' f' q = progress_event i tot s' f'" and sf: "s' = s1" "f' = f1"
      and p1: "post1 = [Sleep (1 / 2)]" by auto
    have sum: "s' + f' = i" using sf step Cons.prems(2) by auto
    with e sum p1 post Cons.prems(2,3) show ?thesis
      by (auto simp: progress_event_def)
  next
    assume a: "(Yield (Progress p t s' f' q), post) \<in> set (followed ?others)"
    have "s1 + f1 + 1 = Suc i" using step Cons.prems(2) by auto
    moreover have "Suc i + length rs = tot + 1" using Cons.prems(3) by simp
    ultimately have "t = tot \<and> p = progress_percent (s' + f') tot \<and> q = int t - int s' - int f' \<and>
         s1 + f1 < s' + f' \<and> s' + f' \<le> tot \<and>
         (\<exists>post'. post = Sleep (1 / 2) # post')"
      using Cons.IH[OF a] by blast
    with step show ?thesis by auto
  qed
qed

section \<open>The shape of a run\<close>

lemma finally_quit_eq: "finally_quit ev = [Quit]"
  by (simp add: finally_quit_def split: option.splits)

lemma batch_connect_failed:
  "connect_result ev = Some e \<Longrightarrow>
   send_emails_batch self ev c =
     batch_head self @ [Yield (Log (py_str ''Error: '' @ exn_str e) Error)]"
  by (simp add: send_emails_batch_def batch_head_def SMTP_TIMEOUT_def)

lemma batch_starttls_failed:
  "connect_result ev = None \<Longrightarrow> starttls_result ev = Some e \<Longrightarrow>
   send_emails_batch self ev c =
     batch_head self @ [StartTLS, Yield (Log (py_str ''Error: '' @ exn_str e) Error), Quit]"
  by (simp add: send_emails_batch_def batch_head_def SMTP_TIMEOUT_def finally_quit_eq)

lemma batch_auth_failed:
  "connect_result ev = None \<Longrightarrow> starttls_result ev = None \<Longrightarrow>
   login_result ev = Some (SMTPAuthenticationError m) \<Longrightarrow>
   send_emails_batch self ev c =
     batch_head self @
     [StartTLS, Yield (Log (py_str ''Authenticating...'') Info),
      Login (sender_email c) (password c),
      Yield (Log
         (if str_contains credentials_signature m
          then py_str ''Authentication failed! For Gmail, use an App Password, not your regular password. ''
               @ py_str ''Generate one at: https://myaccount.google.com/apppasswords''
          else py_str ''Authentication failed: '' @ m) Error),
      Quit]"
  by (simp add: send_emails_batch_def batch_head_def SMTP_TIMEOUT_def finally_quit_eq)

lemma batch_login_failed:
  "connect_result ev = None \<Longrightarrow> starttls_result ev = None \<Longrightarrow>
   login_result ev = Some e \<Longrightarrow> \<forall>m. e \<noteq> SMTPAuthenticationError m \<Longrightarrow>
   send_emails_batch self ev c =
     batch_head self @
     [StartTLS, Yield (Log (py_str ''Authenticating...'') Info),
      Login (sender_email c) (password c),
      Yield (Log (py_str ''Error: '' @ exn_str e) Error),
      Quit]"
  by (cases e) (simp_all add: send_emails_batch_def batch_head_def SMTP_TIMEOUT_def finally_quit_eq)

lemma batch_success:
  "connect_result ev = None \<Longrightarrow> starttls_result ev = None \<Longrightarrow> login_result ev = None \<Longrightarrow>
   send_emails_batch self ev c =
     (batch_head self @
      [StartTLS, Yield (Log (py_str ''Authenticating...'') Info),
       Login (sender_email c) (password c),
       Yield (Log (py_str ''Authentication successful'') Success),
       Yield (Log (py_str ''Sending to '' @ str_nat (length (recipients c)) @ py_str '' recipients...'') Info)])
     @ fst (batch_loop ev c (length (recipients c)) 1 (recipients c) (0, 0))
     @ [Yield (Log (completed_message
                  (fst (snd (batch_loop ev c (length (recipients c)) 1 (recipients c) (0, 0))))
                  (snd (snd (batch_loop ev c (length (recipients c)) 1 (recipients c) (0, 0))))) Success),
        Yield (Complete
                  (fst (snd (batch_loop ev c (length (recipients c)) 1 (recipients c) (0, 0))))
                  (snd (snd (batch_loop ev c (length (recipients c)) 1 (recipients c) (0, 0))))),
        Quit]"
  by (simp add: send_emails_batch_def batch_head_def SMTP_TIMEOUT_def finally_quit_eq
      Let_def case_prod_beta)

lemma generator_connect_failed:
  "connect_result ev = Some e \<Longrightarrow>
   send_emails_generator ev c = generator_head @ generator_handlers e"
  by (simp add: send_emails_generator_def generator_head_def)

lemma generator_starttls_failed:
  "connect_result ev = None \<Longrightarrow> starttls_result ev = Some e \<Longrightarrow>
   send_emails_generator ev c = generator_head @ StartTLS # generator_handlers e"
  by (simp add: send_emails_generator_def generator_head_def)

lemma generator_login_failed:
  "connect_result ev = None \<Longrightarrow> starttls_result ev = None \<Longrightarrow> login_result ev = Some e \<Longrightarrow>
   send_emails_generator ev c =
     generator_head @
     [StartTLS, Yield (Log (py_str ''Authenticating...'') Info),
      Login (sender_email c) (password c),
      Yield (Log (py_str ''Authentication failed: '' @ exn_str e) Error)]
     @ generator_handlers e"
  by (simp add: send_emails_generator_def generator_head_def)

lemma generator_logged_in:
  "connect_result ev = None \<Longrightarrow> starttls_result ev = None \<Longrightarrow> login_result ev = None \<Longrightarrow>
   send_emails_generator ev c =
     (generator_head @
      [StartTLS, Yield (Log (py_str ''Authenticating...'') Info),
       Login (sender_email c) (password c),
       Yield (Log (py_str ''Successfully authenticated'') Success),
       Yield (Log (py_str ''Starting to send emails to '' @ str_nat (length (recipients c)) @ py_str '' recipients'') Info)])
     @ fst (generator_loop ev c (length (recipients c)) 1 (recipients c) (0, 0))
     @ Quit #
       (case quit_result ev of
          Some e \<Rightarrow> generator_handlers e
        | None \<Rightarrow>
          [Yield (Log (completed_message
                  (fst (snd (generator_loop ev c (length (recipients c)) 1 (recipients c) (0, 0))))
                  (snd (snd (generator_loop ev c (length (recipients c)) 1 (recipients c) (0, 0))))) Success),
           Yield (Complete
                  (fst (snd (generator_loop ev c (length (recipients c)) 1 (recipients c) (0, 0))))
                  (snd (snd (generator_loop ev c (length (recipients c)) 1 (recipients c) (0, 0)))))])"
  by (simp add: send_emails_generator_def generator_head_def Let_def case_prod_beta
      split: option.splits)

section \<open>What a loop can do\<close>

lemma batch_iteration_in_loop: "list_all in_loop (fst (batch_iteration ev c tot i r st))"
  by (auto simp: batch_iteration_def Let_def progress_event_def EMAIL_DELAY_def
      split: sum.splits option.splits prod.splits)

lemma generator_iteration_in_loop: "list_all in_loop (fst (generator_iteration ev c tot i r st))"
  by (auto simp: generator_iteration_def Let_def progress_event_def
      split: sum.splits option.splits prod.splits)

lemma batch_loop_in_loop: "list_all in_loop (fst (batch_loop ev c tot i rs st))"
  by (induction rs arbitrary: i st) (simp_all add: batch_loop_Cons batch_iteration_in_loop del: batch_loop.simps(2))

lemma generator_loop_in_loop: "list_all in_loop (fst (generator_loop ev c tot i rs st))"
  by (induction rs arbitrary: i st) (simp_all add: generator_loop_Cons generator_iteration_in_loop del: generator_loop.simps(2))

lemma in_loop_not_Quit: "list_all in_loop xs \<Longrightarrow> Quit \<notin> set xs"
  by (induction xs) auto

lemma in_loop_no_complete: "list_all in_loop xs \<Longrightarrow> \<not> list_ex is_complete (events xs)"
  by (induction xs rule: events.induct) (auto elim: in_loop.elims)

lemma create_message_quit_result:
  "create_message (ev\<lparr>quit_result := r\<rparr>) c x = create_message ev c x"
proof -
  have h: "attach_result (ev\<lparr>quit_result := r\<rparr>) = attach_result ev"
    "secure_filename (ev\<lparr>quit_result := r\<rparr>) = secure_filename ev"
    "encode_error (ev\<lparr>quit_result := r\<rparr>) = encode_error ev" by simp_all
  show ?thesis unfolding create_message_def h by (rule refl)
qed

lemma batch_iteration_quit_result:
  "batch_iteration (ev\<lparr>quit_result := r\<rparr>) c tot i x st = batch_iteration ev c tot i x st"
proof -
  have h: "sendmail_result (ev\<lparr>quit_result := r\<rparr>) = sendmail_result ev" by simp
  show ?thesis unfolding batch_iteration_def create_message_quit_result h by (rule refl)
qed

lemma batch_loop_quit_result:
  "batch_loop (ev\<lparr>quit_result := r\<rparr>) c tot i rs st = batch_loop ev c tot i rs st"
  by (induction rs arbitrary: i st) (simp_all add: batch_iteration_quit_result)

lemma send_emails_batch_quit_result:
  "send_emails_batch self (ev\<lparr>quit_result := r\<rparr>) c = send_emails_batch self ev c"
proof -
  have h: "connect_result (ev\<lparr>quit_result := r\<rparr>) = connect_result ev"
    "starttls_result (ev\<lparr>quit_result := r\<rparr>) = starttls_result ev"
    "login_result (ev\<lparr>quit_result := r\<rparr>) = login_result ev" by simp_all
  show ?thesis
    unfolding send_emails_batch_def h batch_loop_quit_result finally_quit_eq by (rule refl)
qed

section \<open>C5: a run whose authentication fails\<close>

lemma signature_found:
  "str_contains credentials_signature gmail_rejection"
  by (simp add: credentials_signature_def gmail_rejection_def py_str_def)

text \<open>
  C5 as stated fails on \<^verbatim>\<open>send_emails_batch\<close> of src/app.py: the message of the relay
  contains \<^verbatim>\<open>Username and Password not accepted\<close>, and the run has one error log, not two.
  The hint is part of that one message.
\<close>

theorem batch_one_error_log:
  "login_result relay_rejecting = Some (SMTPAuthenticationError gmail_rejection) \<and>
   str_contains credentials_signature gmail_rejection \<and>
   length (filter is_error_log
     (events (send_emails_batch email_sender relay_rejecting (campaign_to [py_str ''a@b.com''])))) = 1"
proof -
  have r: "connect_result relay_rejecting = None" "starttls_result relay_rejecting = None"
    "login_result relay_rejecting = Some (SMTPAuthenticationError gmail_rejection)"
    by (simp_all add: relay_rejecting_def relay_ok_def)
  show ?thesis
    unfolding batch_auth_failed[OF r] using r(3) signature_found
    by (simp add: batch_head_def)
qed

text \<open>
  C5, amended. When the connection is opened and secured and the login raises an
  \<^verbatim>\<open>SMTPAuthenticationError\<close> with message \<open>m\<close>, \<^verbatim>\<open>send_emails_batch\<close> of src/app.py yields
  the three opening logs and then exactly one error log, which is the app-password hint
  when \<open>m\<close> contains the signature and \<^verbatim>\<open>Authentication failed: m\<close> otherwise; it yields no
  progress event and no \<open>Complete\<close> event, and its last action is \<^verbatim>\<open>quit\<close>.
  \<^verbatim>\<open>send_emails_generator\<close> of src/backend/app.py yields \<^verbatim>\<open>Authentication failed: m\<close> and
  then two hint lines when \<open>m\<close> contains the signature, or the same line once more
  otherwise, so three or two error logs; it yields no progress event and no \<open>Complete\<close>
  event, and it does not call \<^verbatim>\<open>quit\<close>.
\<close>

theorem authentication_failure_run:
  assumes "connect_result ev = None" and "starttls_result ev = None"
    and "login_result ev = Some (SMTPAuthenticationError m)"
  shows
   "events (send_emails_batch self ev c) =
      [Log (py_str ''Starting email campaign...'') Info,
       Log (py_str ''Connecting to '' @ smtp_server self @ py_str ''...'') Info,
       Log (py_str ''Authenticating...'') Info,
       Log (if str_contains credentials_signature m
            then py_str ''Authentication failed! For Gmail, use an App Password, not your regular password. ''
                 @ py_str ''Generate one at: https://myaccount.google.com/apppasswords''
            else py_str ''Authentication failed: '' @ m) Error] \<and>
    length (filter is_error_log (events (send_emails_batch self ev c))) = 1 \<and>
    \<not> list_ex is_progress (events (send_emails_batch self ev c)) \<and>
    \<not> list_ex is_complete (events (send_emails_batch self ev c)) \<and>
    last (send_emails_batch self ev c) = Quit \<and>
    events (send_emails_generator ev c) =
      [Log (py_str ''Starting email campaign...'') Info,
       Log (py_str ''Connecting to SMTP server (smtp.gmail.com)...'') Info,
       Log (py_str ''Authenticating...'') Info,
       Log (py_str ''Authentication failed: '' @ m) Error] @
      (if str_contains credentials_signature m
       then [Log (py_str ''Authentication failed! For Gmail, you need to use an App Password, not your regular password.'') Error,
             Log (py_str ''Please go to https://myaccount.google.com/apppasswords to generate one.'') Error]
       else [Log (py_str ''Authentication failed: '' @ m) Error]) \<and>
    length (filter is_error_log (events (send_emails_generator ev c))) =
      (if str_contains credentials_signature m then 3 else 2) \<and>
    \<not> list_ex is_progress (events (send_emails_generator ev c)) \<and>
    \<not> list_ex is_complete (events (send_emails_generator ev c)) \<and>
    Quit \<notin> set (send_emails_generator ev c)"
  unfolding batch_auth_failed[OF assms] generator_login_failed[OF assms]
  by (simp add: batch_head_def generator_head_def)

text \<open>
  C5 at a relay that rejects the login with Gmail's message: three error logs from
  \<^verbatim>\<open>send_emails_generator\<close>, and \<^verbatim>\<open>send_emails_batch\<close> ends with \<^verbatim>\<open>quit\<close>.
\<close>

theorem authentication_failure_run_witness:
  "connect_result relay_rejecting = None \<and> starttls_result relay_rejecting = None \<and>
   length (filter is_error_log
     (events (send_emails_generator relay_rejecting (campaign_to [py_str ''a@b.com''])))) = 3 \<and>
   last (send_emails_batch email_sender relay_rejecting (campaign_to [py_str ''a@b.com''])) = Quit"
proof -
  have r: "connect_result relay_rejecting = None" "starttls_result relay_rejecting = None"
    "login_result relay_rejecting = Some (SMTPAuthenticationError gmail_rejection)"
    by (simp_all add: relay_rejecting_def relay_ok_def)
  show ?thesis
    using authentication_failure_run[OF r, of email_sender "campaign_to [py_str ''a@b.com'']"]
      r(1,2) signature_found
    by simp
qed

section \<open>C4: closing the session\<close>

lemma generator_handlers_logs:
  "list_all (\<lambda>a. \<exists>m. a = Yield (Log m Error)) (generator_handlers e)"
  by (cases e) simp_all

lemma generator_handlers_no_Quit: "Quit \<notin> set (generator_handlers e)"
  using generator_handlers_logs[of e] by (auto simp: list_all_iff)

lemma generator_handlers_events:
  "events (generator_handlers e) \<noteq> [] \<and> list_all is_error_log (events (generator_handlers e))"
  by (cases e) simp_all

lemma exn_kinds:
  "(\<exists>m. e = SMTPAuthenticationError m) \<or> (\<forall>m. e \<noteq> SMTPAuthenticationError m)"
  by blast

lemma batch_ends_with_Quit:
  assumes "connect_result ev = None"
  shows "\<exists>pre. send_emails_batch self ev c = pre @ [Quit] \<and> Quit \<notin> set pre"
proof (cases "starttls_result ev")
  case (Some e)
  have "send_emails_batch self ev c =
      (batch_head self @ [StartTLS, Yield (Log (py_str ''Error: '' @ exn_str e) Error)]) @ [Quit]"
    using batch_starttls_failed[OF assms Some] by simp
  moreover have "Quit \<notin> set (batch_head self @ [StartTLS, Yield (Log (py_str ''Error: '' @ exn_str e) Error)])"
    by (simp add: batch_head_def)
  ultimately show ?thesis by blast
next
  case None
  note tls = this
  show ?thesis
  proof (cases "login_result ev")
    case (Some e)
    show ?thesis
    proof (cases "\<exists>m. e = SMTPAuthenticationError m")
      case True
      then obtain m where m: "login_result ev = Some (SMTPAuthenticationError m)" using Some by blast
      let ?pre = "batch_head self @
         [StartTLS, Yield (Log (py_str ''Authenticating...'') Info),
          Login (sender_email c) (password c),
          Yield (Log
             (if str_contains credentials_signature m
              then py_str ''Authentication failed! For Gmail, use an App Password, not your regular password. ''
                   @ py_str ''Generate one at: https://myaccount.google.com/apppasswords''
              else py_str ''Authentication failed: '' @ m) Error)]"
      have "send_emails_batch self ev c = ?pre @ [Quit]"
        using batch_auth_failed[OF assms tls m] by simp
      moreover have "Quit \<notin> set ?pre" by (simp add: batch_head_def)
      ultimately show ?thesis by blast
    next
      case False
      then have ne: "\<forall>m. e \<noteq> SMTPAuthenticationError m" by blast
      let ?pre = "batch_head self @
         [StartTLS, Yield (Log (py_str ''Authenticating...'') Info),
          Login (sender_email c) (password c),
          Yield (Log (py_str ''Error: '' @ exn_str e) Error)]"
      have "send_emails_batch self ev c = ?pre @ [Quit]"
        using batch_login_failed[OF assms tls Some ne] by simp
      moreover have "Quit \<notin> set ?pre" by (simp add: batch_head_def)
      ultimately show ?thesis by blast
    qed
  next
    case None
    let ?L = "batch_loop ev c (length (recipients c)) 1 (recipients c) (0, 0)"
    let ?pre = "(batch_head self @
      [StartTLS, Yield (Log (py_str ''Authenticating...'') Info),
       Login (sender_email c) (password c),
       Yield (Log (py_str ''Authentication successful'') Success),
       Yield (Log (py_str ''Sending to '' @ str_nat (length (recipients c)) @ py_str '' recipients...'') Info)])
     @ fst ?L
     @ [Yield (Log (completed_message (fst (snd ?L)) (snd (snd ?L))) Success),
        Yield (Complete (fst (snd ?L)) (snd (snd ?L)))]"
    have "send_emails_batch self ev c = ?pre @ [Quit]"
      using batch_success[OF assms tls None] by simp
    moreover have "Quit \<notin> set ?pre"
      using in_loop_not_Quit[OF batch_loop_in_loop[of ev c "length (recipients c)" 1 "recipients c" "(0, 0)"]]
      by (simp add: batch_head_def)
    ultimately show ?thesis by blast
  qed
qed

lemma batch_no_session:
  assumes "connect_result ev \<noteq> None"
  shows "StartTLS \<notin> set (send_emails_batch self ev c) \<and> Quit \<notin> set (send_emails_batch self ev c)"
proof -
  from assms obtain e where "connect_result ev = Some e" by blast
  then show ?thesis by (simp add: batch_connect_failed batch_head_def)
qed

lemma generator_leaves_session_open:
  assumes "connect_result ev = None"
    and "starttls_result ev \<noteq> None \<or> login_result ev \<noteq> None"
  shows "Quit \<notin> set (send_emails_generator ev c)"
proof (cases "starttls_result ev")
  case (Some e)
  show ?thesis unfolding generator_starttls_failed[OF assms(1) Some]
    using generator_handlers_no_Quit by (simp add: generator_head_def)
next
  case None
  with assms(2) obtain e where e: "login_result ev = Some e" by blast
  show ?thesis unfolding generator_login_failed[OF assms(1) None e]
    using generator_handlers_no_Quit by (simp add: generator_head_def)
qed

lemma completed_message_first:
  "\<exists>rest. completed_message s f = of_char CHR ''C'' # rest"
  by (simp add: completed_message_def py_str_def)

lemma not_completion_log:
  "m = [] \<or> hd m \<noteq> of_char CHR ''C'' \<Longrightarrow> Log m l \<noteq> Log (completed_message s f) Success"
  using completed_message_first[of s f] by auto

lemma generator_iteration_no_completion_log:
  "Yield (Log (completed_message s f) Success) \<notin> set (fst (generator_iteration ev c tot i r st))"
proof -
  have e: "py_str ''Email sent to: '' @ r \<noteq> completed_message s f"
    using completed_message_first[of s f] by (auto simp: py_str_def)
  show ?thesis
    using e
    by (auto simp: generator_iteration_def Let_def progress_event_def
        split: sum.splits option.splits prod.splits)
qed

lemma generator_loop_no_completion_log:
  "Yield (Log (completed_message s f) Success) \<notin> set (fst (generator_loop ev c tot i rs st))"
  by (induction rs arbitrary: i st)
     (simp_all add: generator_loop_Cons generator_iteration_no_completion_log
        del: generator_loop.simps(2))

lemma events_set: "e \<in> set (events xs) \<longleftrightarrow> Yield e \<in> set xs"
  by (induction xs rule: events.induct) auto

lemma generator_quit_failure:
  assumes "connect_result ev = None" and "starttls_result ev = None" and "login_result ev = None"
    and "quit_result ev = Some e"
  shows "\<not> list_ex is_complete (events (send_emails_generator ev c)) \<and>
         is_error_log (last (events (send_emails_generator ev c))) \<and>
         Log (completed_message s f) Success \<notin> set (events (send_emails_generator ev c))"
proof -
  let ?L = "generator_loop ev c (length (recipients c)) 1 (recipients c) (0, 0)"
  have nc: "\<not> list_ex is_complete (events (fst ?L))"
    by (rule in_loop_no_complete[OF generator_loop_in_loop])
  have h: "events (generator_handlers e) \<noteq> []" "list_all is_error_log (events (generator_handlers e))"
    using generator_handlers_events by blast+
  then have le: "is_error_log (last (events (generator_handlers e)))"
    by (metis last_in_set list_all_iff)
  have hc: "\<not> list_ex is_complete (events (generator_handlers e))"
    using generator_handlers_logs[of e] by (cases e) auto
  have 12: "\<not> list_ex is_complete (events (send_emails_generator ev c)) \<and>
         is_error_log (last (events (send_emails_generator ev c)))"
    unfolding generator_logged_in[OF assms(1-3)] using nc h(1) assms(4) le hc
    by (simp add: events_append generator_head_def)
  have hl: "Yield (Log (completed_message s f) Success) \<notin> set (generator_handlers e)"
    using generator_handlers_logs[of e] by (auto simp: list_all_iff)
  have c1: "py_str ''Starting email campaign...'' \<noteq> completed_message s f"
    and c2: "py_str ''Connecting to SMTP server (smtp.gmail.com)...'' \<noteq> completed_message s f"
    and c3: "py_str ''Authenticating...'' \<noteq> completed_message s f"
    and c4: "py_str ''Successfully authenticated'' \<noteq> completed_message s f"
    and c5: "py_str ''Starting to send emails to '' @ str_nat (length (recipients c)) @ py_str '' recipients'' \<noteq> completed_message s f"
    by (simp_all add: completed_message_def py_str_def)
  have 3: "Yield (Log (completed_message s f) Success) \<notin> set (send_emails_generator ev c)"
    unfolding generator_logged_in[OF assms(1-3)]
    using generator_loop_no_completion_log[of s f ev c "length (recipients c)" 1 "recipients c" "(0, 0)"]
      hl assms(4) c1 c2 c3 c4 c5
    by (simp add: generator_head_def)
  from 12 3 show ?thesis by (simp add: events_set)
qed

text \<open>
  C4 as stated fails on \<^verbatim>\<open>send_emails_generator\<close> of src/backend/app.py: when the relay
  rejects the login, the run ends with the error logs and \<^verbatim>\<open>quit\<close> is never called.
\<close>

theorem generator_session_left_open:
  "send_emails_generator relay_rejecting (campaign_to [py_str ''a@b.com'']) =
     [Yield (Log (py_str ''Starting email campaign...'') Info),
      Yield (Log (py_str ''Connecting to SMTP server (smtp.gmail.com)...'') Info),
      Connect (py_str ''smtp.gmail.com'') 587 None,
      StartTLS,
      Yield (Log (py_str ''Authenticating...'') Info),
      Login (py_str ''me@example.com'') (py_str ''secret''),
      Yield (Log (py_str ''Authentication failed: '' @ gmail_rejection) Error),
      Yield (Log (py_str ''Authentication failed! For Gmail, you need to use an App Password, not your regular password.'') Error),
      Yield (Log (py_str ''Please go to https://myaccount.google.com/apppasswords to generate one.'') Error)]"
proof -
  have r: "connect_result relay_rejecting = None" "starttls_result relay_rejecting = None"
    "login_result relay_rejecting = Some (SMTPAuthenticationError gmail_rejection)"
    by (simp_all add: relay_rejecting_def relay_ok_def)
  show ?thesis
    unfolding generator_login_failed[OF r] using signature_found
    by (simp add: generator_head_def campaign_to_def)
qed

text \<open>
  C4, amended. In \<^verbatim>\<open>send_emails_batch\<close> of src/app.py, whenever the connection was opened,
  the run ends with the call of \<^verbatim>\<open>quit\<close>, which is its only call of \<^verbatim>\<open>quit\<close>: nothing is
  yielded after it. This holds on normal completion, when \<^verbatim>\<open>starttls\<close> fails, when the
  login is rejected and when the login fails otherwise. When the connection could not
  be opened there is no session: neither \<^verbatim>\<open>starttls\<close> nor \<^verbatim>\<open>quit\<close> is called. The outcome of
  \<^verbatim>\<open>quit\<close> never changes the run: an exception it raises is swallowed, and the log of an
  earlier failure stands as it was. In \<^verbatim>\<open>send_emails_generator\<close> of src/backend/app.py the
  session is closed only after the loop: when \<^verbatim>\<open>starttls\<close> or the login fails, \<^verbatim>\<open>quit\<close> is
  not called, and when \<^verbatim>\<open>quit\<close> itself raises, the run ends with an error log and yields
  neither the completion log nor a \<open>Complete\<close> event.
\<close>

theorem session_closed_on_exit:
  "(connect_result ev = None \<longrightarrow>
      (\<exists>pre. send_emails_batch self ev c = pre @ [Quit] \<and> Quit \<notin> set pre)) \<and>
   (connect_result ev \<noteq> None \<longrightarrow>
      StartTLS \<notin> set (send_emails_batch self ev c) \<and> Quit \<notin> set (send_emails_batch self ev c)) \<and>
   send_emails_batch self (ev\<lparr>quit_result := r\<rparr>) c = send_emails_batch self ev c \<and>
   (connect_result ev = None \<and> (starttls_result ev \<noteq> None \<or> login_result ev \<noteq> None) \<longrightarrow>
      Quit \<notin> set (send_emails_generator ev c)) \<and>
   (connect_result ev = None \<and> starttls_result ev = None \<and> login_result ev = None \<and>
    quit_result ev \<noteq> None \<longrightarrow>
      \<not> list_ex is_complete (events (send_emails_generator ev c)) \<and>
      is_error_log (last (events (send_emails_generator ev c))) \<and>
      Log (completed_message s f) Success \<notin> set (events (send_emails_generator ev c)))"
  using batch_ends_with_Quit batch_no_session send_emails_batch_quit_result
    generator_leaves_session_open generator_quit_failure
  by (metis option.exhaust)

text \<open>
  C4 at a relay that rejects the login: \<^verbatim>\<open>send_emails_batch\<close> ends with \<^verbatim>\<open>quit\<close> and is the
  same run when \<^verbatim>\<open>quit\<close> raises, and \<^verbatim>\<open>send_emails_generator\<close> does not call \<^verbatim>\<open>quit\<close>.
\<close>

theorem session_closed_on_exit_witness:
  "connect_result relay_rejecting = None \<and> login_result relay_rejecting \<noteq> None \<and>
   last (send_emails_batch email_sender relay_rejecting (campaign_to [py_str ''a@b.com''])) = Quit \<and>
   send_emails_batch email_sender (relay_rejecting\<lparr>quit_result := Some (SMTPException (py_str ''closed''))\<rparr>)
       (campaign_to [py_str ''a@b.com'']) =
     send_emails_batch email_sender relay_rejecting (campaign_to [py_str ''a@b.com'']) \<and>
   Quit \<notin> set (send_emails_generator relay_rejecting (campaign_to [py_str ''a@b.com'']))"
proof -
  have r: "connect_result relay_rejecting = None" "login_result relay_rejecting \<noteq> None"
    by (simp_all add: relay_rejecting_def relay_ok_def)
  from session_closed_on_exit[where ev = relay_rejecting and self = email_sender
      and c = "campaign_to [py_str ''a@b.com'']" and r = "Some (SMTPException (py_str ''closed''))"] r
  show ?thesis by auto
qed

lemma batch_complete_last:
  assumes "Complete s f \<in> set (events (send_emails_batch self ev c))"
  shows "\<exists>pre. events (send_emails_batch self ev c) =
            pre @ [Log (completed_message s f) Success, Complete s f] \<and>
          \<not> list_ex is_complete pre"
proof (cases "connect_result ev")
  case (Some e)
  with assms show ?thesis by (simp add: batch_connect_failed batch_head_def)
next
  case None
  note con = this
  show ?thesis
  proof (cases "starttls_result ev")
    case (Some e)
    with assms con show ?thesis by (simp add: batch_starttls_failed batch_head_def)
  next
    case None
    note tls = this
    show ?thesis
    proof (cases "login_result ev")
      case (Some e)
      show ?thesis
      proof (cases "\<exists>m. e = SMTPAuthenticationError m")
        case True
        then obtain m where "login_result ev = Some (SMTPAuthenticationError m)" using Some by blast
        from batch_auth_failed[OF con tls this] assms show ?thesis
          by (simp add: batch_head_def)
      next
        case False
        then have "\<forall>m. e \<noteq> SMTPAuthenticationError m" by blast
        from batch_login_failed[OF con tls Some this] assms show ?thesis
          by (simp add: batch_head_def)
      qed
    next
      case None
      let ?L = "batch_loop ev c (length (recipients c)) 1 (recipients c) (0, 0)"
      let ?pre = "[Log (py_str ''Starting email campaign...'') Info,
         Log (py_str ''Connecting to '' @ smtp_server self @ py_str ''...'') Info,
         Log (py_str ''Authenticating...'') Info,
         Log (py_str ''Authentication successful'') Success,
         Log (py_str ''Sending to '' @ str_nat (length (recipients c)) @ py_str '' recipients...'') Info]
         @ events (fst ?L)"
      have nc: "\<not> list_ex is_complete (events (fst ?L))"
        by (rule in_loop_no_complete[OF batch_loop_in_loop])
      have ev_eq: "events (send_emails_batch self ev c) =
         ?pre @ [Log (completed_message (fst (snd ?L)) (snd (snd ?L))) Success,
                 Complete (fst (snd ?L)) (snd (snd ?L))]"
        unfolding batch_success[OF con tls None] by (simp add: events_append batch_head_def)
      have "Complete s f \<notin> set (events (fst ?L))"
        using nc by (auto simp: list_ex_iff)
      with assms have "s = fst (snd ?L) \<and> f = snd (snd ?L)"
        unfolding ev_eq by auto
      moreover have "\<not> list_ex is_complete ?pre" using nc by simp
      ultimately show ?thesis using ev_eq by blast
    qed
  qed
qed

lemma generator_complete_last:
  assumes "Complete s f \<in> set (events (send_emails_generator ev c))"
  shows "\<exists>pre. events (send_emails_generator ev c) =
            pre @ [Log (completed_message s f) Success, Complete s f] \<and>
          \<not> list_ex is_complete pre"
proof -
  have hn: "Complete s f \<notin> set (events (generator_handlers e))" for e
    by (cases e) simp_all
  show ?thesis
  proof (cases "connect_result ev")
    case (Some e)
    with assms hn show ?thesis
      by (simp add: generator_connect_failed generator_head_def events_append)
  next
    case None
    note con = this
    show ?thesis
    proof (cases "starttls_result ev")
      case (Some e)
      with assms con hn show ?thesis
        by (simp add: generator_starttls_failed generator_head_def events_append)
    next
      case None
      note tls = this
      show ?thesis
      proof (cases "login_result ev")
        case (Some e)
        from assms hn show ?thesis
          unfolding generator_login_failed[OF con tls Some]
          by (simp add: generator_head_def events_append)
      next
        case None
        let ?L = "generator_loop ev c (length (recipients c)) 1 (recipients c) (0, 0)"
        let ?pre = "[Log (py_str ''Starting email campaign...'') Info,
           Log (py_str ''Connecting to SMTP server (smtp.gmail.com)...'') Info,
           Log (py_str ''Authenticating...'') Info,
           Log (py_str ''Successfully authenticated'') Success,
           Log (py_str ''Starting to send emails to '' @ str_nat (length (recipients c)) @ py_str '' recipients'') Info]
           @ events (fst ?L)"
        have nc: "\<not> list_ex is_complete (events (fst ?L))"
          by (rule in_loop_no_complete[OF generator_loop_in_loop])
        then have nl: "Complete s f \<notin> set (events (fst ?L))" by (auto simp: list_ex_iff)
        show ?thesis
        proof (cases "quit_result ev")
          case (Some e)
          from assms hn nl show ?thesis
            unfolding generator_logged_in[OF con tls None] Some
            by (simp add: generator_head_def events_append)
        next
          case qn: None
          have ev_eq: "events (send_emails_generator ev c) =
             ?pre @ [Log (completed_message (fst (snd ?L)) (snd (snd ?L))) Success,
                     Complete (fst (snd ?L)) (snd (snd ?L))]"
            unfolding generator_logged_in[OF con tls None] qn
            by (simp add: events_append generator_head_def)
          with assms nl have "s = fst (snd ?L) \<and> f = snd (snd ?L)" by auto
          moreover have "\<not> list_ex is_complete ?pre" using nc by simp
          ultimately show ?thesis using ev_eq by blast
        qed
      qed
    qed
  qed
qed

text \<open>
  C8. In both generators, a \<open>Complete\<close> event that occurs among the events of a run is
  their last element, the event just before it is the completion log with the same two
  counts, at level success, and no \<open>Complete\<close> event occurs before these two. So no
  progress event and no event of any other kind follows a \<open>Complete\<close> event.
\<close>

theorem complete_is_last:
  "(Complete s f \<in> set (events (send_emails_batch self ev c)) \<longrightarrow>
     (\<exists>pre. events (send_emails_batch self ev c) =
              pre @ [Log (completed_message s f) Success, Complete s f] \<and>
            \<not> list_ex is_complete pre)) \<and>
   (Complete s f \<in> set (events (send_emails_generator ev c)) \<longrightarrow>
     (\<exists>pre. events (send_emails_generator ev c) =
              pre @ [Log (completed_message s f) Success, Complete s f] \<and>
            \<not> list_ex is_complete pre))"
  using batch_complete_last[of s f self ev c] generator_complete_last[of s f ev c] by blast

section \<open>C6: the delay after a progress event\<close>

lemma percent_1_1_Suc: "progress_percent (Suc 0) (Suc 0) = 100"
  by (simp add: percent_eval)

lemma followed_pre: "xs = pre @ x # post \<Longrightarrow> (x, post) \<in> set (followed xs)"
  unfolding followed_iff by blast

lemma followed_in_set: "(x, post) \<in> set (followed xs) \<Longrightarrow> x \<in> set xs"
  by (induction xs) auto

lemma followed_append_mem:
  "(x, post) \<in> set (followed (xs @ ys)) \<longleftrightarrow>
     (\<exists>p1. (x, p1) \<in> set (followed xs) \<and> post = p1 @ ys) \<or> (x, post) \<in> set (followed ys)"
  by (induction xs) auto

lemma followed_middle:
  assumes "(x, post) \<in> set (followed (xs @ ys @ zs))" and "x \<notin> set xs" and "x \<notin> set zs"
  shows "\<exists>p1. (x, p1) \<in> set (followed ys) \<and> post = p1 @ zs"
proof -
  from assms(1) have
    "(\<exists>p1. (x, p1) \<in> set (followed xs) \<and> post = p1 @ ys @ zs) \<or>
     (x, post) \<in> set (followed (ys @ zs))"
    by (simp only: followed_append_mem)
  with assms(2) have "(x, post) \<in> set (followed (ys @ zs))"
    using followed_in_set by fastforce
  then have "(\<exists>p1. (x, p1) \<in> set (followed ys) \<and> post = p1 @ zs) \<or>
     (x, post) \<in> set (followed zs)"
    by (simp only: followed_append_mem)
  with assms(3) show ?thesis using followed_in_set by fastforce
qed

lemma batch_iteration_sleeps:
  "list_all (\<lambda>a. a = Sleep 1 \<or> \<not> is_sleep a) (fst (batch_iteration ev c tot i r st))"
  by (auto simp: batch_iteration_def Let_def progress_event_def EMAIL_DELAY_def
      split: sum.splits option.splits prod.splits)

lemma batch_loop_sleeps_all:
  "list_all (\<lambda>a. a = Sleep 1 \<or> \<not> is_sleep a) (fst (batch_loop ev c tot i rs st))"
  by (induction rs arbitrary: i st)
     (simp_all add: batch_loop_Cons batch_iteration_sleeps del: batch_loop.simps(2))

lemma batch_loop_sleeps: "Sleep d \<in> set (fst (batch_loop ev c tot i rs st)) \<Longrightarrow> d = 1"
  using batch_loop_sleeps_all[of ev c tot i rs st] by (auto simp: list_all_iff)

lemma batch_pacing:
  assumes "send_emails_batch self ev c = pre @ Yield (Progress p t s f q) # post"
  shows "t = length (recipients c) \<and> 1 \<le> s + f \<and> s + f \<le> t \<and>
         p = progress_percent (s + f) t \<and> q = int t - int s - int f \<and>
         (s + f < t \<longrightarrow> (\<exists>post'. post = Sleep 1 # post')) \<and>
         (s + f = t \<longrightarrow> \<not> list_ex is_sleep post)"
proof -
  have m: "(Yield (Progress p t s f q), post) \<in> set (followed (send_emails_batch self ev c))"
    using assms by (rule followed_pre)
  have ms: "Yield (Progress p t s f q) \<in> set (send_emails_batch self ev c)"
    using m by (rule followed_in_set)
  show ?thesis
  proof (cases "connect_result ev")
    case (Some e)
    with ms show ?thesis by (simp add: batch_connect_failed batch_head_def)
  next
    case None
    note con = this
    show ?thesis
    proof (cases "starttls_result ev")
      case (Some e)
      with ms con show ?thesis by (simp add: batch_starttls_failed batch_head_def)
    next
      case None
      note tls = this
      show ?thesis
      proof (cases "login_result ev")
        case (Some e)
        show ?thesis
        proof (cases "\<exists>m. e = SMTPAuthenticationError m")
          case True
          then obtain m' where "login_result ev = Some (SMTPAuthenticationError m')" using Some by blast
          from batch_auth_failed[OF con tls this] ms show ?thesis
            by (simp add: batch_head_def)
        next
          case False
          then have "\<forall>m. e \<noteq> SMTPAuthenticationError m" by blast
          from batch_login_failed[OF con tls Some this] ms show ?thesis
            by (simp add: batch_head_def)
        qed
      next
        case None
        let ?n = "length (recipients c)"
        let ?L = "batch_loop ev c ?n 1 (recipients c) (0, 0)"
        let ?tail = "[Yield (Log (completed_message (fst (snd ?L)) (snd (snd ?L))) Success),
                      Yield (Complete (fst (snd ?L)) (snd (snd ?L))), Quit]"
        have "\<exists>post1. (Yield (Progress p t s f q), post1) \<in> set (followed (fst ?L)) \<and>
                       post = post1 @ ?tail"
        proof (rule followed_middle)
          show "(Yield (Progress p t s f q), post) \<in> set (followed
             ((batch_head self @
               [StartTLS, Yield (Log (py_str ''Authenticating...'') Info),
                Login (sender_email c) (password c),
                Yield (Log (py_str ''Authentication successful'') Success),
                Yield (Log (py_str ''Sending to '' @ str_nat (length (recipients c)) @ py_str '' recipients...'') Info)])
              @ fst ?L @ ?tail))"
            using m unfolding batch_success[OF con tls None] .
        qed (simp_all add: batch_head_def)
        then obtain post1 where m1: "(Yield (Progress p t s f q), post1) \<in> set (followed (fst ?L))"
          and post: "post = post1 @ ?tail" by blast
        have R: "t = ?n \<and> p = progress_percent (s + f) ?n \<and> q = int t - int s - int f \<and>
              0 + 0 < s + f \<and> s + f \<le> ?n \<and>
              (s + f < ?n \<longrightarrow> (\<exists>post'. post1 = Sleep 1 # post')) \<and>
              (s + f = ?n \<longrightarrow> post1 = [])"
          by (rule batch_loop_progress[OF m1]) simp_all
        then have t: "t = ?n" by (rule conjunct1)
        have nos: "\<not> list_ex is_sleep ?tail" by simp
        have a: "s + f < t \<longrightarrow> (\<exists>post'. post = Sleep 1 # post')"
        proof
          assume "s + f < t"
          with R t obtain post' where "post1 = Sleep 1 # post'" by blast
          then have "post = Sleep 1 # (post' @ ?tail)" using post by simp
          then show "\<exists>post'. post = Sleep 1 # post'" by (rule exI)
        qed
        have b: "s + f = t \<longrightarrow> \<not> list_ex is_sleep post"
        proof
          assume "s + f = t"
          with R t have "post1 = []" by blast
          then show "\<not> list_ex is_sleep post" using post nos by simp
        qed
        from R have "0 + 0 < s + f" by blast
        then have pos: "1 \<le> s + f" by arith
        from R t a b pos show ?thesis by simp
      qed
    qed
  qed
qed

lemma batch_sleeps:
  assumes "Sleep d \<in> set (send_emails_batch self ev c)"
  shows "d = 1"
proof (cases "connect_result ev")
  case (Some e)
  with assms show ?thesis by (simp add: batch_connect_failed batch_head_def)
next
  case None
  note con = this
  show ?thesis
  proof (cases "starttls_result ev")
    case (Some e)
    with assms con show ?thesis by (simp add: batch_starttls_failed batch_head_def)
  next
    case None
    note tls = this
    show ?thesis
    proof (cases "login_result ev")
      case (Some e)
      show ?thesis
      proof (cases "\<exists>m. e = SMTPAuthenticationError m")
        case True
        then obtain m' where "login_result ev = Some (SMTPAuthenticationError m')" using Some by blast
        from batch_auth_failed[OF con tls this] assms show ?thesis
          by (simp add: batch_head_def)
      next
        case False
        then have "\<forall>m. e \<noteq> SMTPAuthenticationError m" by blast
        from batch_login_failed[OF con tls Some this] assms show ?thesis
          by (simp add: batch_head_def)
      qed
    next
      case None
      from assms have "Sleep d \<in> set (fst (batch_loop ev c (length (recipients c)) 1 (recipients c) (0, 0)))"
        unfolding batch_success[OF con tls None] by (simp add: batch_head_def)
      then show ?thesis by (rule batch_loop_sleeps)
    qed
  qed
qed

lemma generator_pacing:
  assumes "send_emails_generator ev c = pre @ Yield (Progress p t s f q) # post"
  shows "t = length (recipients c) \<and> 1 \<le> s + f \<and> s + f \<le> t \<and>
         p = progress_percent (s + f) t \<and> q = int t - int s - int f \<and>
         (\<exists>post'. post = Sleep (1 / 2) # post')"
proof -
  have m: "(Yield (Progress p t s f q), post) \<in> set (followed (send_emails_generator ev c))"
    using assms by (rule followed_pre)
  have hs: "Yield (Progress p t s f q) \<notin> set (generator_handlers e)" for e
    by (cases e) simp_all
  have ms: "Yield (Progress p t s f q) \<in> set (send_emails_generator ev c)"
    using m by (rule followed_in_set)
  show ?thesis
  proof (cases "connect_result ev")
    case (Some e)
    with ms hs show ?thesis
      by (simp add: generator_connect_failed generator_head_def)
  next
    case None
    note con = this
    show ?thesis
    proof (cases "starttls_result ev")
      case (Some e)
      with ms con hs show ?thesis
        by (simp add: generator_starttls_failed generator_head_def)
    next
      case None
      note tls = this
      show ?thesis
      proof (cases "login_result ev")
        case (Some e)
        from ms hs show ?thesis
          unfolding generator_login_failed[OF con tls Some]
          by (simp add: generator_head_def)
      next
        case None
        let ?n = "length (recipients c)"
        let ?L = "generator_loop ev c ?n 1 (recipients c) (0, 0)"
        let ?tail = "Quit #
          (case quit_result ev of
             Some e \<Rightarrow> generator_handlers e
           | None \<Rightarrow>
             [Yield (Log (completed_message (fst (snd ?L)) (snd (snd ?L))) Success),
              Yield (Complete (fst (snd ?L)) (snd (snd ?L)))])"
        have tl: "Yield (Progress p t s f q) \<notin> set ?tail"
          using hs by (cases "quit_result ev") simp_all
        have "\<exists>post1. (Yield (Progress p t s f q), post1) \<in> set (followed (fst ?L)) \<and>
                       post = post1 @ ?tail"
        proof (rule followed_middle)
          show "(Yield (Progress p t s f q), post) \<in> set (followed
             ((generator_head @
               [StartTLS, Yield (Log (py_str ''Authenticating...'') Info),
                Login (sender_email c) (password c),
                Yield (Log (py_str ''Successfully authenticated'') Success),
                Yield (Log (py_str ''Starting to send emails to '' @ str_nat (length (recipients c)) @ py_str '' recipients'') Info)])
              @ fst ?L @ ?tail))"
            using m unfolding generator_logged_in[OF con tls None] .
          show "Yield (Progress p t s f q) \<notin> set ?tail" by (rule tl)
        qed (simp add: generator_head_def)
        then obtain post1 where m1: "(Yield (Progress p t s f q), post1) \<in> set (followed (fst ?L))"
          and post: "post = post1 @ ?tail" by blast
        have R: "t = ?n \<and> p = progress_percent (s + f) ?n \<and> q = int t - int s - int f \<and>
              0 + 0 < s + f \<and> s + f \<le> ?n \<and>
              (\<exists>post'. post1 = Sleep (1 / 2) # post')"
          by (rule generator_loop_progress[OF m1]) simp_all
        then have t: "t = ?n" by (rule conjunct1)
        from R obtain post' where "post1 = Sleep (1 / 2) # post'" by blast
        then have "post = Sleep (1 / 2) # (post' @ ?tail)" using post by simp
        then have a: "\<exists>post'. post = Sleep (1 / 2) # post'" by (rule exI)
        from R have "0 + 0 < s + f" by blast
        then have pos: "1 \<le> s + f" by arith
        from R t a pos show ?thesis by simp
      qed
    qed
  qed
qed

lemmas run_eval1 = run_eval percent_1_1_Suc

text \<open>
  C6 as stated fails on \<^verbatim>\<open>send_emails_generator\<close> of src/backend/app.py: in a campaign
  with one recipient, the progress event of that last recipient is followed by a delay,
  and the delay is half a second.
\<close>

theorem generator_sleeps_after_last:
  "send_emails_generator relay_ok (campaign_to [py_str ''a@b.com'']) ! 10 = Yield (Progress 100 1 1 0 0) \<and>
   send_emails_generator relay_ok (campaign_to [py_str ''a@b.com'']) ! 11 = Sleep (1 / 2) \<and>
   length (recipients (campaign_to [py_str ''a@b.com''])) = 1"
  by (simp add: run_eval1)

text \<open>
  C6, amended. The progress event of the \<open>i\<close>-th recipient carries \<open>sent + failed = i\<close>,
  so \<open>i < total\<close> reads \<open>s + f < t\<close> on the event. In \<^verbatim>\<open>send_emails_batch\<close> of src/app.py
  every progress event reports the number of recipients as its total and a position
  between 1 and that total; when the position is below the total the next action is a
  delay of one second, and when it is the total no delay occurs in the rest of the run;
  every delay of a run is one second. In \<^verbatim>\<open>send_emails_generator\<close> of src/backend/app.py
  every progress event, the last one included, is followed at once by a delay of half a
  second.
\<close>

theorem pacing_after_progress:
  "(send_emails_batch self ev c = pre @ Yield (Progress p t s f q) # post \<longrightarrow>
      t = length (recipients c) \<and> 1 \<le> s + f \<and> s + f \<le> t \<and>
      (s + f < t \<longrightarrow> (\<exists>rest. post = Sleep 1 # rest)) \<and>
      (s + f = t \<longrightarrow> \<not> list_ex is_sleep post)) \<and>
   (Sleep d \<in> set (send_emails_batch self ev c) \<longrightarrow> d = 1) \<and>
   (send_emails_generator ev c = pre' @ Yield (Progress p' t' s' f' q') # post' \<longrightarrow>
      (\<exists>rest. post' = Sleep (1 / 2) # rest))"
  using batch_pacing[of self ev c pre p t s f q post] batch_sleeps[of d self ev c]
    generator_pacing[of ev c pre' p' t' s' f' q' post']
  by blast

text \<open>
  C6 on a campaign with two valid recipients: the eleventh action of
  \<^verbatim>\<open>send_emails_batch\<close> is the progress event of the first recipient, and the action after
  it is the delay of one second.
\<close>

theorem pacing_after_progress_witness:
  "send_emails_batch email_sender relay_ok (campaign_to [py_str ''a@b.com'', py_str ''a@b.com'']) =
     take 10 (send_emails_batch email_sender relay_ok (campaign_to [py_str ''a@b.com'', py_str ''a@b.com'']))
     @ Yield (Progress 50 2 1 0 1)
     # drop 11 (send_emails_batch email_sender relay_ok (campaign_to [py_str ''a@b.com'', py_str ''a@b.com''])) \<and>
   hd (drop 11 (send_emails_batch email_sender relay_ok (campaign_to [py_str ''a@b.com'', py_str ''a@b.com'']))) = Sleep 1"
proof -
  let ?run = "send_emails_batch email_sender relay_ok (campaign_to [py_str ''a@b.com'', py_str ''a@b.com''])"
  have d: "?run = take 10 ?run @ Yield (Progress 50 2 1 0 1) # drop 11 ?run"
    by (simp add: run_eval)
  from pacing_after_progress[of email_sender relay_ok
      "campaign_to [py_str ''a@b.com'', py_str ''a@b.com'']" "take 10 ?run" 50 2 1 0 1 "drop 11 ?run"] d
  have "\<exists>rest. drop 11 ?run = Sleep 1 # rest" by simp
  then have "hd (drop 11 ?run) = Sleep 1" by auto
  with d show ?thesis by blast
qed

text \<open>
  C8 on a campaign with one valid recipient and a relay that accepts every call: both
  generators yield \<open>Complete 1 0\<close>, and it is their last event.
\<close>

theorem complete_is_last_witness:
  "Complete 1 0 \<in> set (events (send_emails_batch email_sender relay_ok (campaign_to [py_str ''a@b.com'']))) \<and>
   last (events (send_emails_batch email_sender relay_ok (campaign_to [py_str ''a@b.com'']))) = Complete 1 0 \<and>
   Complete 1 0 \<in> set (events (send_emails_generator relay_ok (campaign_to [py_str ''a@b.com'']))) \<and>
   last (events (send_emails_generator relay_ok (campaign_to [py_str ''a@b.com'']))) = Complete 1 0"
proof -
  let ?b = "events (send_emails_batch email_sender relay_ok (campaign_to [py_str ''a@b.com'']))"
  let ?g = "events (send_emails_generator relay_ok (campaign_to [py_str ''a@b.com'']))"
  have mb: "Complete 1 0 \<in> set ?b" by (simp add: run_eval1)
  have mg: "Complete 1 0 \<in> set ?g" by (simp add: run_eval1)
  from complete_is_last[of 1 0 email_sender relay_ok "campaign_to [py_str ''a@b.com'']"] mb mg
  obtain pb pg where "?b = pb @ [Log (completed_message 1 0) Success, Complete 1 0]"
    "?g = pg @ [Log (completed_message 1 0) Success, Complete 1 0]" by blast
  then have "last ?b = Complete 1 0" "last ?g = Complete 1 0" by simp_all
  with mb mg show ?thesis by blast
qed

text \<open>
  C2 fails on \<^verbatim>\<open>send_emails_batch\<close> of src/app.py, on the campaign of two recipients whose
  second address is invalid: the last progress event of the run is the one of the first
  recipient, with \<open>sent = 1\<close> and \<open>failed = 0\<close> while \<open>total = 2\<close>, so
  \<open>sent + failed\<close> is less than \<open>total\<close> in the last progress event.
\<close>

theorem batch_last_progress_short:
  "last (filter is_progress
     (events (send_emails_batch email_sender relay_ok (campaign_to [py_str ''a@b.com'', py_str ''bad''])))) =
     Progress 50 2 1 0 1 \<and>
   length (recipients (campaign_to [py_str ''a@b.com'', py_str ''bad''])) = 2"
  by (simp add: run_eval)

section \<open>C10: the two counters\<close>







end
